theory Spec2Isabelle
  imports Main "HOL-Library.Char_ord" "HOL-Library.List_Lexorder"
begin

section \<open>Package config: errors, hooks, roles, peers\<close>

text \<open>
  A Go \<^verbatim>\<open>error\<close> built by \<^verbatim>\<open>fmt.Errorf\<close> carries its message; a function returning
  \<^verbatim>\<open>error\<close> returns \<open>Inl err\<close> for a non-nil error and \<open>Inr ()\<close> for \<^verbatim>\<open>nil\<close>.
\<close>

datatype error = Errorf string

fun error_msg :: "error \<Rightarrow> string" where
  "error_msg (Errorf m) = m"

text \<open>The \<^verbatim>\<open>%d\<close> verb of \<^verbatim>\<open>fmt\<close> on a loop index (never negative).\<close>

definition digit :: "nat \<Rightarrow> char" where
  "digit d = ''0123456789'' ! d"

fun decimal :: "nat \<Rightarrow> string" where
  "decimal n = (if n < 10 then [digit n] else decimal (n div 10) @ [digit (n mod 10)])"

text \<open>Values of type \<^verbatim>\<open>any\<close> that the package hands to the logger as key/value fields.\<close>

datatype any = AStr string | AStrs "string list" | ABool bool | AErr error

text \<open>What the package asks of the logger: a level, a message and the key/value fields.\<close>

datatype level = DebugLevel | InfoLevel | ErrorLevel

datatype log_entry = Log level string "any list"

text \<open>\<^verbatim>\<open>type Hook struct { Name; Command; Args; MustSucceed }\<close>\<close>

record Hook =
  Hook_Name :: string
  Hook_Command :: string
  Hook_Args :: "string list"
  Hook_MustSucceed :: bool

text \<open>\<^verbatim>\<open>type Hooks struct { Pre []Hook; Post []Hook }\<close>\<close>

record Hooks =
  Hooks_Pre :: "Hook list"
  Hooks_Post :: "Hook list"

text \<open>
  Modelled from the spec: the declaration of \<^verbatim>\<open>Role\<close> (role.go) is not among the
  sources. The spec gives a role its \<open>command\<close>, \<open>args\<close>, \<open>env\<close> and pre/post hooks;
  \<^verbatim>\<open>failover.go\<close> reads \<^verbatim>\<open>Command\<close> and \<^verbatim>\<open>Hooks\<close> and writes \<^verbatim>\<open>Name\<close>, and
  \<^verbatim>\<open>role_test.go\<close> builds values with \<^verbatim>\<open>Command\<close>, \<^verbatim>\<open>Args\<close>, \<^verbatim>\<open>Env\<close> and \<^verbatim>\<open>Hooks\<close>.
\<close>

record Role =
  Role_Name :: string
  Role_Command :: string
  Role_Args :: "string list"
  Role_Env :: "string \<rightharpoonup> string"
  Role_Hooks :: Hooks

text \<open>\<^verbatim>\<open>type Peer struct { IP string; Name string }\<close>\<close>

record Peer =
  Peer_IP :: string
  Peer_Name :: string

text \<open>
  \<^verbatim>\<open>type Peers map[string]Peer\<close>. Go leaves the iteration order of a map open, and the
  code only ever ranges over the map or takes its length, so a value of \<open>Peers\<close> is the
  list of its entries in the order one \<^verbatim>\<open>range\<close> visits them. The keys of a map are
  distinct (\<open>Peers_wf\<close>), and two lists are the same map when \<open>map_of\<close> agrees on them.
\<close>

type_synonym Peers = "(string \<times> Peer) list"

definition Peers_wf :: "Peers \<Rightarrow> bool" where
  "Peers_wf p = distinct (map fst p)"

text \<open>
  \<^verbatim>\<open>type Failover struct\<close>. A \<^verbatim>\<open>time.Duration\<close> is a signed count of nanoseconds; the
  code compares durations with zero and stores constants, it never adds them, so they are
  integers here. \<^verbatim>\<open>TakeoverJitterSeconds\<close> is a Go \<^verbatim>\<open>int\<close>, likewise only compared
  and assigned.
\<close>

record Failover =
  Failover_DryRun :: bool
  Failover_PollIntervalDuration :: int
  Failover_LeaderlessThresholdDuration :: int
  Failover_TakeoverJitterSeconds :: int
  Failover_Active :: Role
  Failover_Passive :: Role
  Failover_Peers :: Peers

definition time_Second :: int where
  "time_Second = 1000000000"

subsection \<open>Failover.Validate\<close>

text \<open>
  The four hook loops of \<^verbatim>\<open>Failover.Validate\<close> differ only in the key that starts the
  message (\<^verbatim>\<open>failover.active.hooks.pre\<close> and so on); \<open>key\<close> is that text. Each loop
  checks the name and the command of every hook, in order, and nothing else.
\<close>

fun Failover_Validate_hooks :: "string \<Rightarrow> Hook list \<Rightarrow> error + unit" where
  "Failover_Validate_hooks key [] = Inr ()"
| "Failover_Validate_hooks key (hook # rest) =
     (if Hook_Name hook = [] then Inl (Errorf (key @ '' must have a name''))
      else if Hook_Command hook = [] then Inl (Errorf (key @ '' must have a command''))
      else Failover_Validate_hooks key rest)"

text \<open>
  The loop over the peers. \<open>validIPv4 s\<close> stands for the standard library's
  \<^verbatim>\<open>net.ParseIP(s) != nil && net.ParseIP(s).To4() != nil\<close>. \<open>ips\<close> is the
  \<^verbatim>\<open>map[string]bool\<close> of addresses seen so far; reading a missing key gives \<^verbatim>\<open>false\<close>.
\<close>

definition seen :: "(string \<rightharpoonup> bool) \<Rightarrow> string \<Rightarrow> bool" where
  "seen ips ip = (case ips ip of None \<Rightarrow> False | Some b \<Rightarrow> b)"

fun Failover_Validate_peers ::
  "(string \<Rightarrow> bool) \<Rightarrow> (string \<rightharpoonup> bool) \<Rightarrow> Peers \<Rightarrow> error + unit" where
  "Failover_Validate_peers validIPv4 ips [] = Inr ()"
| "Failover_Validate_peers validIPv4 ips ((name, peer) # rest) =
     (if \<not> validIPv4 (Peer_IP peer)
      then Inl (Errorf (''failover.peers - invalid IP address '' @ Peer_IP peer @
                        '' for peer '' @ name))
      else if seen ips (Peer_IP peer)
      then Inl (Errorf (''failover.peers - duplicate IP address '' @ Peer_IP peer @
                        '' found for peer '' @ name))
      else Failover_Validate_peers validIPv4 (ips(Peer_IP peer \<mapsto> True)) rest)"

definition Failover_Validate :: "(string \<Rightarrow> bool) \<Rightarrow> Failover \<Rightarrow> error + unit" where
  "Failover_Validate validIPv4 f =
     (if Failover_PollIntervalDuration f = 0
      then Inl (Errorf ''failover.poll_interval_duration must be greater than zero'')
      else if Failover_LeaderlessThresholdDuration f \<le> 0
      then Inl (Errorf ''failover.leaderless_threshold_duration must be positive and non-zero'')
      else if Role_Command (Failover_Active f) = []
      then Inl (Errorf ''failover.active.command must be defined'')
      else case Failover_Validate_hooks ''failover.active.hooks.pre''
                  (Hooks_Pre (Role_Hooks (Failover_Active f))) of
        Inl err \<Rightarrow> Inl err
      | Inr _ \<Rightarrow>
      (case Failover_Validate_hooks ''failover.active.hooks.post''
                  (Hooks_Post (Role_Hooks (Failover_Active f))) of
        Inl err \<Rightarrow> Inl err
      | Inr _ \<Rightarrow>
      (if Role_Command (Failover_Passive f) = []
       then Inl (Errorf ''failover.passive.command must be defined'')
       else case Failover_Validate_hooks ''failover.passive.hooks.pre''
                  (Hooks_Pre (Role_Hooks (Failover_Passive f))) of
        Inl err \<Rightarrow> Inl err
      | Inr _ \<Rightarrow>
      (case Failover_Validate_hooks ''failover.passive.hooks.post''
                  (Hooks_Post (Role_Hooks (Failover_Passive f))) of
        Inl err \<Rightarrow> Inl err
      | Inr _ \<Rightarrow>
      (if length (Failover_Peers f) = 0
       then Inl (Errorf ''failover.peers - at least one peer must be defined'')
       else Failover_Validate_peers validIPv4 Map.empty (Failover_Peers f))))))"

subsection \<open>Failover.SetDefaults\<close>

definition Failover_SetDefaults :: "Failover \<Rightarrow> Failover" where
  "Failover_SetDefaults f =
     (let f1 = (if Failover_PollIntervalDuration f = 0
                then f\<lparr>Failover_PollIntervalDuration := 5 * time_Second\<rparr> else f);
          f2 = (if Failover_LeaderlessThresholdDuration f1 = 0
                then f1\<lparr>Failover_LeaderlessThresholdDuration := 15 * time_Second\<rparr> else f1);
          f3 = (if Failover_TakeoverJitterSeconds f2 = 0
                then f2\<lparr>Failover_TakeoverJitterSeconds := 3\<rparr> else f2)
      in f3\<lparr>Failover_Active := (Failover_Active f3)\<lparr>Role_Name := ''active''\<rparr>,
             Failover_Passive := (Failover_Passive f3)\<lparr>Role_Name := ''passive''\<rparr>\<rparr>)"

subsection \<open>Hooks.Validate and Hook.Validate\<close>

definition Hook_Validate :: "Hook \<Rightarrow> bool \<Rightarrow> error + unit" where
  "Hook_Validate h allowMustSucceed =
     (if Hook_Name h = [] then Inl (Errorf ''must have a name'')
      else if Hook_Command h = [] then Inl (Errorf ''must have a command'')
      else if \<not> allowMustSucceed \<and> Hook_MustSucceed h
      then Inl (Errorf ''hook must_succeed not allowed for post hooks'')
      else Inr ())"

text \<open>
  One loop of \<^verbatim>\<open>Hooks.Validate\<close>: \<open>key\<close> is \<^verbatim>\<open>hooks.pre\<close> or \<^verbatim>\<open>hooks.post\<close>, \<open>allow\<close>
  the argument given to \<^verbatim>\<open>hook.Validate\<close>, \<open>i\<close> the index of the first hook of the list.
\<close>

fun Hooks_Validate_loop :: "string \<Rightarrow> bool \<Rightarrow> nat \<Rightarrow> Hook list \<Rightarrow> error + unit" where
  "Hooks_Validate_loop key allow i [] = Inr ()"
| "Hooks_Validate_loop key allow i (hook # rest) =
     (case Hook_Validate hook allow of
        Inl err \<Rightarrow> Inl (Errorf (key @ ''['' @ decimal i @ '']: '' @ error_msg err))
      | Inr _ \<Rightarrow> Hooks_Validate_loop key allow (Suc i) rest)"

definition Hooks_Validate :: "Hooks \<Rightarrow> error + unit" where
  "Hooks_Validate h =
     (case Hooks_Validate_loop ''hooks.pre'' True 0 (Hooks_Pre h) of
        Inl err \<Rightarrow> Inl err
      | Inr _ \<Rightarrow> Hooks_Validate_loop ''hooks.post'' False 0 (Hooks_Post h))"

subsection \<open>Running hooks\<close>

text \<open>
  Modelled from the spec: the declaration of \<^verbatim>\<open>command.RunOptions\<close> is not among the
  sources. The spec gives the runner \<open>name\<close>, \<open>command\<close>, \<open>args\<close>, \<open>env\<close>, \<open>dryRun\<close>,
  \<open>streamOutput\<close> and \<open>loggerFields\<close>; \<^verbatim>\<open>Hook.Run\<close> and \<^verbatim>\<open>command_test.go\<close> name the
  fields as below. \<^verbatim>\<open>Hook.Run\<close> leaves \<^verbatim>\<open>Env\<close> at its zero value, the empty map.
\<close>

record RunOptions =
  RunOptions_Name :: string
  RunOptions_Command :: string
  RunOptions_Args :: "string list"
  RunOptions_Env :: "string \<rightharpoonup> string"
  RunOptions_DryRun :: bool
  RunOptions_LoggerArgs :: "any list"
  RunOptions_StreamOutput :: bool

text \<open>The options of \<^verbatim>\<open>Hook.Run\<close> and of \<^verbatim>\<open>Hooks.RunPre\<close> and \<^verbatim>\<open>Hooks.RunPost\<close>.\<close>

record HookRunOptions =
  HookRunOptions_HookType :: string
  HookRunOptions_DryRun :: bool
  HookRunOptions_LoggerArgs :: "any list"

record HooksRunOptions =
  HooksRunOptions_DryRun :: bool
  HooksRunOptions_LoggerArgs :: "any list"

text \<open>
  The effects of the package on its surroundings: \<open>sys_runs\<close> lists the calls of
  \<^verbatim>\<open>command.Run\<close> made so far, oldest first, each with the options it was given;
  \<open>sys_log\<close> lists the calls of \<^verbatim>\<open>log.Info\<close> and \<^verbatim>\<open>log.Error\<close> made by this package.
\<close>

record sys =
  sys_runs :: "RunOptions list"
  sys_log :: "log_entry list"

text \<open>
  What the package calls and does not define: \<^verbatim>\<open>strcase.ToSnake\<close> of a library, and
  the command runner \<^verbatim>\<open>command.Run\<close>, whose source is not at hand. The result of a run
  is whatever the surroundings decide: \<open>command_result\<close> gives it from the runs made
  before and the options of this one, so that the same command may succeed once and fail
  later.
\<close>

record extern =
  strcase_ToSnake :: "string \<Rightarrow> string"
  command_result :: "RunOptions list \<Rightarrow> RunOptions \<Rightarrow> error + unit"

definition command_Run :: "extern \<Rightarrow> RunOptions \<Rightarrow> sys \<Rightarrow> (error + unit) \<times> sys" where
  "command_Run ext ro s =
     (command_result ext (sys_runs s) ro, s\<lparr>sys_runs := sys_runs s @ [ro]\<rparr>)"

definition log_Info :: "string \<Rightarrow> any list \<Rightarrow> sys \<Rightarrow> sys" where
  "log_Info msg keyvals s = s\<lparr>sys_log := sys_log s @ [Log InfoLevel msg keyvals]\<rparr>"

definition log_Error :: "string \<Rightarrow> any list \<Rightarrow> sys \<Rightarrow> sys" where
  "log_Error msg keyvals s = s\<lparr>sys_log := sys_log s @ [Log ErrorLevel msg keyvals]\<rparr>"

text \<open>The local \<^verbatim>\<open>loggerArgs\<close> of \<^verbatim>\<open>Hook.Run\<close>, after the \<^verbatim>\<open>append\<close>.\<close>

definition Hook_loggerArgs :: "extern \<Rightarrow> Hook \<Rightarrow> HookRunOptions \<Rightarrow> any list" where
  "Hook_loggerArgs ext h opts =
     [AStr ''hook_name'', AStr (strcase_ToSnake ext (Hook_Name h)),
      AStr ''command'', AStr (Hook_Command h),
      AStr ''args'', AStrs (Hook_Args h),
      AStr ''dry_run'', ABool (HookRunOptions_DryRun opts)] @ HookRunOptions_LoggerArgs opts"

text \<open>The \<^verbatim>\<open>command.RunOptions\<close> literal that \<^verbatim>\<open>Hook.Run\<close> passes to \<^verbatim>\<open>command.Run\<close>.\<close>

definition Hook_RunOptions :: "extern \<Rightarrow> Hook \<Rightarrow> HookRunOptions \<Rightarrow> RunOptions" where
  "Hook_RunOptions ext h opts =
     \<lparr>RunOptions_Name = HookRunOptions_HookType opts @ ''-hook '' @ Hook_Name h,
      RunOptions_Command = Hook_Command h,
      RunOptions_Args = Hook_Args h,
      RunOptions_Env = Map.empty,
      RunOptions_DryRun = HookRunOptions_DryRun opts,
      RunOptions_LoggerArgs = Hook_loggerArgs ext h opts,
      RunOptions_StreamOutput = True\<rparr>"

definition Hook_Run :: "extern \<Rightarrow> Hook \<Rightarrow> HookRunOptions \<Rightarrow> sys \<Rightarrow> (error + unit) \<times> sys" where
  "Hook_Run ext h opts s =
     (if HookRunOptions_DryRun opts then (Inr (), s)
      else command_Run ext (Hook_RunOptions ext h opts)
             (log_Info ''running hook'' (Hook_loggerArgs ext h opts) s))"

text \<open>
  \<^verbatim>\<open>Hooks.RunPre\<close> builds its \<^verbatim>\<open>loggerArgs\<close> once and hands every hook the same
  \<^verbatim>\<open>HookRunOptions\<close> literal, \<open>hopts\<close> below, whose \<^verbatim>\<open>LoggerArgs\<close> are those
  \<^verbatim>\<open>loggerArgs\<close>. \<open>RunPre_loop\<close> is the loop over \<^verbatim>\<open>h.Pre\<close>.
\<close>

definition RunPre_HookRunOptions :: "HooksRunOptions \<Rightarrow> HookRunOptions" where
  "RunPre_HookRunOptions opts =
     \<lparr>HookRunOptions_HookType = ''pre'',
      HookRunOptions_DryRun = HooksRunOptions_DryRun opts,
      HookRunOptions_LoggerArgs =
        [AStr ''hook_type'', AStr ''pre''] @ HooksRunOptions_LoggerArgs opts\<rparr>"

fun RunPre_loop :: "extern \<Rightarrow> HookRunOptions \<Rightarrow> Hook list \<Rightarrow> sys \<Rightarrow> (error + unit) \<times> sys" where
  "RunPre_loop ext hopts [] s = (Inr (), s)"
| "RunPre_loop ext hopts (hook # rest) s =
     (case Hook_Run ext hook hopts s of
        (Inl err, s1) \<Rightarrow>
          if Hook_MustSucceed hook then (Inl err, s1)
          else RunPre_loop ext hopts rest
                 (log_Error ''hook failed'' (HookRunOptions_LoggerArgs hopts) s1)
      | (Inr _, s1) \<Rightarrow> RunPre_loop ext hopts rest s1)"

definition Hooks_RunPre :: "extern \<Rightarrow> Hooks \<Rightarrow> HooksRunOptions \<Rightarrow> sys \<Rightarrow> (error + unit) \<times> sys" where
  "Hooks_RunPre ext h opts s = RunPre_loop ext (RunPre_HookRunOptions opts) (Hooks_Pre h) s"

text \<open>
  \<^verbatim>\<open>Hooks.RunPost\<close>, likewise, with the loop over \<^verbatim>\<open>h.Post\<close>. It has no result.
\<close>

definition RunPost_HookRunOptions :: "HooksRunOptions \<Rightarrow> HookRunOptions" where
  "RunPost_HookRunOptions opts =
     \<lparr>HookRunOptions_HookType = ''post'',
      HookRunOptions_DryRun = HooksRunOptions_DryRun opts,
      HookRunOptions_LoggerArgs =
        [AStr ''hook_type'', AStr ''post''] @ HooksRunOptions_LoggerArgs opts\<rparr>"

fun RunPost_loop :: "extern \<Rightarrow> HookRunOptions \<Rightarrow> Hook list \<Rightarrow> sys \<Rightarrow> sys" where
  "RunPost_loop ext hopts [] s = s"
| "RunPost_loop ext hopts (hook # rest) s =
     (case Hook_Run ext hook hopts s of
        (Inl err, s1) \<Rightarrow>
          RunPost_loop ext hopts rest
            (log_Error ''hook failed'' (HookRunOptions_LoggerArgs hopts) s1)
      | (Inr _, s1) \<Rightarrow> RunPost_loop ext hopts rest s1)"

definition Hooks_RunPost :: "extern \<Rightarrow> Hooks \<Rightarrow> HooksRunOptions \<Rightarrow> sys \<Rightarrow> sys" where
  "Hooks_RunPost ext h opts s = RunPost_loop ext (RunPost_HookRunOptions opts) (Hooks_Post h) s"

subsection \<open>Peers.GetIPs and Peers.GetRankedIPs\<close>

definition Peers_GetIPs :: "Peers \<Rightarrow> string list" where
  "Peers_GetIPs p = map (\<lambda>(name, peer). Peer_IP peer) p"

text \<open>
  \<^verbatim>\<open>sort.Strings\<close> puts a slice in increasing order of Go's \<^verbatim>\<open><\<close> on strings, which
  compares byte by byte, a proper prefix first: the order of \<open>char list\<close> here.
\<close>

definition sort_Strings :: "string list \<Rightarrow> string list" where
  "sort_Strings ips = sort ips"

text \<open>
  The loop \<^verbatim>\<open>for ipIndex, ip := range ips { rankedIPs[ip] = ipIndex + 1 }\<close>, from index
  \<open>ipIndex\<close> on. A slice is far shorter than the largest \<^verbatim>\<open>int\<close>, so the sum is exact.
\<close>

fun GetRankedIPs_loop :: "nat \<Rightarrow> string list \<Rightarrow> (string \<rightharpoonup> int) \<Rightarrow> (string \<rightharpoonup> int)" where
  "GetRankedIPs_loop ipIndex [] rankedIPs = rankedIPs"
| "GetRankedIPs_loop ipIndex (ip # ips) rankedIPs =
     GetRankedIPs_loop (Suc ipIndex) ips (rankedIPs(ip \<mapsto> int ipIndex + 1))"

definition Peers_GetRankedIPs :: "Peers \<Rightarrow> (string \<rightharpoonup> int)" where
  "Peers_GetRankedIPs p = GetRankedIPs_loop 0 (sort_Strings (Peers_GetIPs p)) Map.empty"

subsection \<open>NotificationConfig.SetDefaults\<close>

record NotificationEvents =
  Startup :: bool
  Shutdown :: bool
  BecomingActive :: bool
  BecameActive :: bool
  BecomingPassive :: bool
  BecamePassive :: bool
  HealthUnhealthy :: bool
  HealthRecovered :: bool
  Delinquent :: bool
  GossipLost :: bool
  GossipRecovered :: bool
  PeerDiscovered :: bool
  PeerLost :: bool

record DiscordConfig =
  Discord_Enabled :: bool
  Discord_WebhookURL :: string
  Discord_WebhookURLEnv :: string
  Discord_Username :: string
  Discord_AvatarURL :: string

record TelegramConfig =
  Telegram_Enabled :: bool
  Telegram_BotToken :: string
  Telegram_BotTokenEnv :: string
  Telegram_ChatID :: string
  Telegram_ParseMode :: string

record SlackConfig =
  Slack_Enabled :: bool
  Slack_WebhookURL :: string
  Slack_WebhookURLEnv :: string
  Slack_Channel :: string
  Slack_Username :: string
  Slack_IconEmoji :: string

record PagerDutyConfig =
  PagerDuty_Enabled :: bool
  PagerDuty_RoutingKey :: string
  PagerDuty_RoutingKeyEnv :: string

record NotificationConfig =
  Enabled :: bool
  Discord :: DiscordConfig
  Telegram :: TelegramConfig
  Slack :: SlackConfig
  PagerDuty :: PagerDutyConfig
  Events :: NotificationEvents

text \<open>The thirteen assignments to \<^verbatim>\<open>n.Events\<close>, in the order of the source.\<close>

definition SetDefaults_Events :: "NotificationEvents \<Rightarrow> NotificationEvents" where
  "SetDefaults_Events e =
     e\<lparr>Startup := True, Shutdown := True, BecomingActive := True, BecameActive := True,
       BecomingPassive := True, BecamePassive := True, HealthUnhealthy := True,
       HealthRecovered := True, Delinquent := True, GossipLost := True,
       GossipRecovered := True, PeerDiscovered := True, PeerLost := True\<rparr>"

definition NotificationConfig_SetDefaults :: "NotificationConfig \<Rightarrow> NotificationConfig" where
  "NotificationConfig_SetDefaults n =
     (let n1 = n\<lparr>Events := SetDefaults_Events (Events n)\<rparr>;
          n2 = (if Telegram_ParseMode (Telegram n1) = []
                then n1\<lparr>Telegram := (Telegram n1)\<lparr>Telegram_ParseMode := ''HTML''\<rparr>\<rparr> else n1);
          n3 = (if Discord_Username (Discord n2) = []
                then n2\<lparr>Discord := (Discord n2)\<lparr>Discord_Username := ''Solana HA Bot''\<rparr>\<rparr> else n2);
          n4 = (if Slack_Username (Slack n3) = []
                then n3\<lparr>Slack := (Slack n3)\<lparr>Slack_Username := ''Solana HA Bot''\<rparr>\<rparr> else n3)
      in if Slack_IconEmoji (Slack n4) = []
         then n4\<lparr>Slack := (Slack n4)\<lparr>Slack_IconEmoji := '':robot_face:''\<rparr>\<rparr> else n4)"

section \<open>Package notify: the manager\<close>

text \<open>
  \<^verbatim>\<open>EventType\<close> and \<^verbatim>\<open>Severity\<close> are string types. A \<^verbatim>\<open>time.Time\<close> is the count of
  nanoseconds since the zero instant, so \<^verbatim>\<open>IsZero\<close> is equality with 0.
\<close>

type_synonym EventType = string
type_synonym Severity = string
type_synonym Time = int

definition EventStartup :: EventType where "EventStartup = ''startup''"
definition EventShutdown :: EventType where "EventShutdown = ''shutdown''"
definition EventBecomingActive :: EventType where "EventBecomingActive = ''becoming_active''"
definition EventBecameActive :: EventType where "EventBecameActive = ''became_active''"
definition EventBecomingPassive :: EventType where "EventBecomingPassive = ''becoming_passive''"
definition EventBecamePassive :: EventType where "EventBecamePassive = ''became_passive''"
definition EventHealthUnhealthy :: EventType where "EventHealthUnhealthy = ''health_unhealthy''"
definition EventHealthRecovered :: EventType where "EventHealthRecovered = ''health_recovered''"
definition EventDelinquent :: EventType where "EventDelinquent = ''delinquent''"
definition EventGossipLost :: EventType where "EventGossipLost = ''gossip_lost''"
definition EventGossipRecovered :: EventType where "EventGossipRecovered = ''gossip_recovered''"
definition EventPeerDiscovered :: EventType where "EventPeerDiscovered = ''peer_discovered''"
definition EventPeerLost :: EventType where "EventPeerLost = ''peer_lost''"

definition Time_IsZero :: "Time \<Rightarrow> bool" where
  "Time_IsZero t = (t = 0)"

record Event =
  Event_Type :: EventType
  Event_Severity :: Severity
  Event_Timestamp :: Time
  Event_ValidatorName :: string
  Event_PublicIP :: string
  Event_Cluster :: string
  Event_ActivePubkey :: string
  Event_PassivePubkey :: string
  Event_Message :: string
  Event_Details :: "string \<rightharpoonup> string"

text \<open>
  Of a \<^verbatim>\<open>context.Context\<close> the manager sets the deadline only:
  \<^verbatim>\<open>context.WithTimeout(context.Background(), d)\<close> is the context that expires \<open>d\<close>
  after the instant of the call.
\<close>

record Context =
  Context_Deadline :: Time

definition context_WithTimeout_Background :: "int \<Rightarrow> Time \<Rightarrow> Context" where
  "context_WithTimeout_Background d now = \<lparr>Context_Deadline = now + d\<rparr>"

text \<open>
  One call of a notifier's \<^verbatim>\<open>Send\<close>: the name of the service, the context and the
  event it was given, the instant at which the call began, what it returned, and how long
  it took, in nanoseconds.
\<close>

record Send_call =
  call_service :: string
  call_ctx :: Context
  call_event :: Event
  call_at :: Time
  call_result :: "error + unit"
  call_elapsed :: nat

text \<open>
  The surroundings of the manager: the clock read by \<^verbatim>\<open>time.Now\<close>, the calls of
  \<^verbatim>\<open>Send\<close> made so far, oldest first, and the manager's calls of its logger. Time
  passes inside \<^verbatim>\<open>Send\<close>, which waits for the network; the manager's own statements
  take no time in this model.
\<close>

record net =
  net_clock :: Time
  net_sends :: "Send_call list"
  net_log :: "log_entry list"

text \<open>
  The interface \<^verbatim>\<open>Notifier\<close>. \<^verbatim>\<open>Name\<close> and \<^verbatim>\<open>IsEnabled\<close> return a constant and a
  field in each of the four services. \<^verbatim>\<open>Send\<close> is whatever the service does: given the
  context, the event and the surroundings at the call, an error or \<^verbatim>\<open>nil\<close>, and the time
  it took, in nanoseconds.
\<close>

record Notifier =
  Notifier_Name :: string
  Notifier_IsEnabled :: bool
  Notifier_Send :: "Context \<Rightarrow> Event \<Rightarrow> net \<Rightarrow> (error + unit) \<times> nat"

record Manager =
  Manager_notifiers :: "Notifier list"
  Manager_enabled :: bool
  Manager_eventFilter :: NotificationEvents

definition logger_Debug :: "string \<Rightarrow> any list \<Rightarrow> net \<Rightarrow> net" where
  "logger_Debug msg keyvals s = s\<lparr>net_log := net_log s @ [Log DebugLevel msg keyvals]\<rparr>"

definition logger_Error :: "string \<Rightarrow> any list \<Rightarrow> net \<Rightarrow> net" where
  "logger_Error msg keyvals s = s\<lparr>net_log := net_log s @ [Log ErrorLevel msg keyvals]\<rparr>"

text \<open>The call \<^verbatim>\<open>notifier.Send(ctx, event)\<close>: it is recorded, and the clock moves on.\<close>

definition call_Send :: "Notifier \<Rightarrow> Context \<Rightarrow> Event \<Rightarrow> net \<Rightarrow> (error + unit) \<times> net" where
  "call_Send notifier ctx event s =
     (case Notifier_Send notifier ctx event s of
        (r, elapsed) \<Rightarrow>
          (r, s\<lparr>net_clock := net_clock s + int elapsed,
                net_sends := net_sends s @
                  [\<lparr>call_service = Notifier_Name notifier, call_ctx = ctx,
                    call_event = event, call_at = net_clock s,
                    call_result = r, call_elapsed = elapsed\<rparr>]\<rparr>))"

definition Manager_IsEnabled :: "Manager \<Rightarrow> bool" where
  "Manager_IsEnabled m = (Manager_enabled m \<and> length (Manager_notifiers m) > 0)"

definition isEventEnabled :: "Manager \<Rightarrow> EventType \<Rightarrow> bool" where
  "isEventEnabled m eventType =
     (if eventType = EventStartup then Startup (Manager_eventFilter m)
      else if eventType = EventShutdown then Shutdown (Manager_eventFilter m)
      else if eventType = EventBecomingActive then BecomingActive (Manager_eventFilter m)
      else if eventType = EventBecameActive then BecameActive (Manager_eventFilter m)
      else if eventType = EventBecomingPassive then BecomingPassive (Manager_eventFilter m)
      else if eventType = EventBecamePassive then BecamePassive (Manager_eventFilter m)
      else if eventType = EventHealthUnhealthy then HealthUnhealthy (Manager_eventFilter m)
      else if eventType = EventHealthRecovered then HealthRecovered (Manager_eventFilter m)
      else if eventType = EventDelinquent then Delinquent (Manager_eventFilter m)
      else if eventType = EventGossipLost then GossipLost (Manager_eventFilter m)
      else if eventType = EventGossipRecovered then GossipRecovered (Manager_eventFilter m)
      else if eventType = EventPeerDiscovered then PeerDiscovered (Manager_eventFilter m)
      else if eventType = EventPeerLost then PeerLost (Manager_eventFilter m)
      else True)"

text \<open>The loop of \<^verbatim>\<open>Manager.Notify\<close> over \<^verbatim>\<open>m.notifiers\<close>.\<close>

fun Notify_loop :: "Context \<Rightarrow> Event \<Rightarrow> Notifier list \<Rightarrow> net \<Rightarrow> net" where
  "Notify_loop ctx event [] s = s"
| "Notify_loop ctx event (notifier # rest) s =
     (if \<not> Notifier_IsEnabled notifier then Notify_loop ctx event rest s
      else case call_Send notifier ctx event s of
        (Inl err, s1) \<Rightarrow>
          Notify_loop ctx event rest
            (logger_Error ''notification failed''
               [AStr ''service'', AStr (Notifier_Name notifier),
                AStr ''event'', AStr (Event_Type event), AStr ''error'', AErr err] s1)
      | (Inr _, s1) \<Rightarrow>
          Notify_loop ctx event rest
            (logger_Debug ''notification sent''
               [AStr ''service'', AStr (Notifier_Name notifier),
                AStr ''event'', AStr (Event_Type event)] s1))"

text \<open>
  \<^verbatim>\<open>if event.Timestamp.IsZero() { event.Timestamp = time.Now().UTC() }\<close>, \<open>now\<close> being
  the clock.
\<close>

definition set_Timestamp :: "Event \<Rightarrow> Time \<Rightarrow> Event" where
  "set_Timestamp event now =
     (if Time_IsZero (Event_Timestamp event) then event\<lparr>Event_Timestamp := now\<rparr> else event)"

text \<open>\<^verbatim>\<open>Manager.Notify\<close> has no result; the deferred \<^verbatim>\<open>cancel\<close> leaves no trace here.\<close>

definition Manager_Notify :: "Manager \<Rightarrow> Event \<Rightarrow> net \<Rightarrow> net" where
  "Manager_Notify m event s =
     (if \<not> Manager_enabled m then s
      else if \<not> isEventEnabled m (Event_Type event)
      then logger_Debug ''event type disabled, skipping notification''
             [AStr ''event'', AStr (Event_Type event)] s
      else let event1 = set_Timestamp event (net_clock s);
               ctx = context_WithTimeout_Background (10 * time_Second) (net_clock s)
           in Notify_loop ctx event1 (Manager_notifiers m) s)"

section \<open>Vocabulary for the hook chains\<close>

text \<open>
  A chain runs its hooks one after the other with the same options \<open>hopts\<close>.
  \<open>chain_runs ext hopts hooks n\<close> lists the calls of \<^verbatim>\<open>command.Run\<close> that running the
  first \<open>n\<close> hooks makes: one for each hook, in the listed order, and none in a dry run.
\<close>

definition chain_runs :: "extern \<Rightarrow> HookRunOptions \<Rightarrow> Hook list \<Rightarrow> nat \<Rightarrow> RunOptions list" where
  "chain_runs ext hopts hooks n =
     (if HookRunOptions_DryRun hopts then []
      else map (\<lambda>h. Hook_RunOptions ext h hopts) (take n hooks))"

text \<open>
  \<open>nth_hook_result ext hopts before hooks i\<close> is what \<^verbatim>\<open>Hook.Run\<close> returns for hook
  number \<open>i\<close> of the chain (counting from 0) once the hooks before it have been run,
  \<open>before\<close> being the runs made before the chain began. The hook fails when this is an
  error.
\<close>

definition nth_hook_result ::
  "extern \<Rightarrow> HookRunOptions \<Rightarrow> RunOptions list \<Rightarrow> Hook list \<Rightarrow> nat \<Rightarrow> error + unit" where
  "nth_hook_result ext hopts before hooks i =
     (if HookRunOptions_DryRun hopts then Inr ()
      else command_result ext (before @ chain_runs ext hopts hooks i)
             (Hook_RunOptions ext (hooks ! i) hopts))"

text \<open>
  Hook number \<open>i\<close> vetoes the chain when it is a hook of the chain, has
  \<^verbatim>\<open>must_succeed\<close> set, and fails.
\<close>

definition hook_vetoes ::
  "extern \<Rightarrow> HookRunOptions \<Rightarrow> RunOptions list \<Rightarrow> Hook list \<Rightarrow> nat \<Rightarrow> bool" where
  "hook_vetoes ext hopts before hooks i =
     (i < length hooks \<and> Hook_MustSucceed (hooks ! i) \<and>
      nth_hook_result ext hopts before hooks i \<noteq> Inr ())"

text \<open>
  The log lines that belong to hook number \<open>i\<close>: \<^verbatim>\<open>running hook\<close> when it is really
  run, and then \<^verbatim>\<open>hook failed\<close> when it fails and the chain goes on. A pre-chain goes on
  after a failure when the hook has no \<^verbatim>\<open>must_succeed\<close>; a post-chain always goes on.
\<close>

definition running_hook_log :: "extern \<Rightarrow> HookRunOptions \<Rightarrow> Hook list \<Rightarrow> nat \<Rightarrow> log_entry list" where
  "running_hook_log ext hopts hooks i =
     (if HookRunOptions_DryRun hopts then []
      else [Log InfoLevel ''running hook'' (Hook_loggerArgs ext (hooks ! i) hopts)])"

definition hook_failed_log :: "HookRunOptions \<Rightarrow> log_entry list" where
  "hook_failed_log hopts = [Log ErrorLevel ''hook failed'' (HookRunOptions_LoggerArgs hopts)]"

definition pre_hook_log ::
  "extern \<Rightarrow> HookRunOptions \<Rightarrow> RunOptions list \<Rightarrow> Hook list \<Rightarrow> nat \<Rightarrow> log_entry list" where
  "pre_hook_log ext hopts before hooks i =
     running_hook_log ext hopts hooks i @
     (if nth_hook_result ext hopts before hooks i \<noteq> Inr () \<and> \<not> Hook_MustSucceed (hooks ! i)
      then hook_failed_log hopts else [])"

definition post_hook_log ::
  "extern \<Rightarrow> HookRunOptions \<Rightarrow> RunOptions list \<Rightarrow> Hook list \<Rightarrow> nat \<Rightarrow> log_entry list" where
  "post_hook_log ext hopts before hooks i =
     running_hook_log ext hopts hooks i @
     (if nth_hook_result ext hopts before hooks i \<noteq> Inr ()
      then hook_failed_log hopts else [])"

section \<open>Vocabulary for the fan-out\<close>

text \<open>
  The calls of \<^verbatim>\<open>Send\<close> made between the surroundings \<open>s\<close> and the later \<open>s'\<close>, and the
  line the manager logs after a call: \<^verbatim>\<open>notification failed\<close> with the error when the call
  returned one, \<^verbatim>\<open>notification sent\<close> otherwise.
\<close>

definition new_sends :: "net \<Rightarrow> net \<Rightarrow> Send_call list" where
  "new_sends s s' = drop (length (net_sends s)) (net_sends s')"

definition call_log :: "Send_call \<Rightarrow> log_entry" where
  "call_log c =
     (case call_result c of
        Inl err \<Rightarrow>
          Log ErrorLevel ''notification failed''
            [AStr ''service'', AStr (call_service c),
             AStr ''event'', AStr (Event_Type (call_event c)), AStr ''error'', AErr err]
      | Inr _ \<Rightarrow>
          Log DebugLevel ''notification sent''
            [AStr ''service'', AStr (call_service c),
             AStr ''event'', AStr (Event_Type (call_event c))])"

section \<open>Concrete configurations\<close>

text \<open>Values on which the functions above are evaluated further down.\<close>

definition peers_one :: Peers where
  "peers_one = [(''validator-1'', \<lparr>Peer_IP = ''10.0.0.1'', Peer_Name = ''validator-1''\<rparr>)]"

definition no_hooks :: Hooks where
  "no_hooks = \<lparr>Hooks_Pre = [], Hooks_Post = []\<rparr>"

definition role_plain :: Role where
  "role_plain = \<lparr>Role_Name = [], Role_Command = ''run-validator'', Role_Args = [],
     Role_Env = Map.empty, Role_Hooks = no_hooks\<rparr>"

text \<open>\<^verbatim>\<open>poll_interval_duration: -5s\<close>, everything else in order.\<close>

definition cfg_negative_poll :: Failover where
  "cfg_negative_poll =
     \<lparr>Failover_DryRun = False,
      Failover_PollIntervalDuration = - 5 * time_Second,
      Failover_LeaderlessThresholdDuration = 15 * time_Second,
      Failover_TakeoverJitterSeconds = 3,
      Failover_Active = role_plain, Failover_Passive = role_plain,
      Failover_Peers = peers_one\<rparr>"

text \<open>A post-hook of the active role with \<^verbatim>\<open>must_succeed: true\<close>, everything else in order.\<close>

definition hook_post_must_succeed :: Hook where
  "hook_post_must_succeed =
     \<lparr>Hook_Name = ''announce'', Hook_Command = ''/usr/local/bin/announce'', Hook_Args = [],
      Hook_MustSucceed = True\<rparr>"

definition cfg_post_must_succeed :: Failover where
  "cfg_post_must_succeed =
     \<lparr>Failover_DryRun = False,
      Failover_PollIntervalDuration = 5 * time_Second,
      Failover_LeaderlessThresholdDuration = 15 * time_Second,
      Failover_TakeoverJitterSeconds = 3,
      Failover_Active = role_plain\<lparr>Role_Hooks :=
        \<lparr>Hooks_Pre = [], Hooks_Post = [hook_post_must_succeed]\<rparr>\<rparr>,
      Failover_Passive = role_plain,
      Failover_Peers = peers_one\<rparr>"

text \<open>What unmarshalling \<^verbatim>\<open>takeover_jitter_seconds: 0\<close> leaves in the struct, and a jitter of 7.\<close>

definition cfg_jitter :: "int \<Rightarrow> Failover" where
  "cfg_jitter j =
     \<lparr>Failover_DryRun = False,
      Failover_PollIntervalDuration = 2 * time_Second,
      Failover_LeaderlessThresholdDuration = 0,
      Failover_TakeoverJitterSeconds = j,
      Failover_Active = role_plain, Failover_Passive = role_plain,
      Failover_Peers = peers_one\<rparr>"

text \<open>A notification configuration with every event flag off and every default-able field set.\<close>

definition events_all_off :: NotificationEvents where
  "events_all_off =
     \<lparr>Startup = False, Shutdown = False, BecomingActive = False, BecameActive = False,
      BecomingPassive = False, BecamePassive = False, HealthUnhealthy = False,
      HealthRecovered = False, Delinquent = False, GossipLost = False,
      GossipRecovered = False, PeerDiscovered = False, PeerLost = False\<rparr>"

definition events_all_on :: NotificationEvents where
  "events_all_on =
     \<lparr>Startup = True, Shutdown = True, BecomingActive = True, BecameActive = True,
      BecomingPassive = True, BecamePassive = True, HealthUnhealthy = True,
      HealthRecovered = True, Delinquent = True, GossipLost = True,
      GossipRecovered = True, PeerDiscovered = True, PeerLost = True\<rparr>"

definition notif_quiet :: NotificationConfig where
  "notif_quiet =
     \<lparr>Enabled = True,
      Discord = \<lparr>Discord_Enabled = False, Discord_WebhookURL = [], Discord_WebhookURLEnv = [],
                 Discord_Username = [], Discord_AvatarURL = []\<rparr>,
      Telegram = \<lparr>Telegram_Enabled = True, Telegram_BotToken = ''t'', Telegram_BotTokenEnv = [],
                  Telegram_ChatID = ''42'', Telegram_ParseMode = ''Markdown''\<rparr>,
      Slack = \<lparr>Slack_Enabled = False, Slack_WebhookURL = [], Slack_WebhookURLEnv = [],
               Slack_Channel = [], Slack_Username = ''ha'', Slack_IconEmoji = []\<rparr>,
      PagerDuty = \<lparr>PagerDuty_Enabled = False, PagerDuty_RoutingKey = [],
                   PagerDuty_RoutingKeyEnv = []\<rparr>,
      Events = events_all_off\<rparr>"

text \<open>
  Three peers, in one order a \<^verbatim>\<open>range\<close> over the map may take. As strings,
  \<^verbatim>\<open>10.0.0.1\<close> is below \<^verbatim>\<open>10.0.0.10\<close>, which is below \<^verbatim>\<open>10.0.0.2\<close>.
\<close>

definition peers_three :: Peers where
  "peers_three =
     [(''bravo'', \<lparr>Peer_IP = ''10.0.0.2'', Peer_Name = ''bravo''\<rparr>),
      (''alpha'', \<lparr>Peer_IP = ''10.0.0.10'', Peer_Name = ''alpha''\<rparr>),
      (''charlie'', \<lparr>Peer_IP = ''10.0.0.1'', Peer_Name = ''charlie''\<rparr>)]"

text \<open>
  Surroundings in which \<^verbatim>\<open>/bin/false\<close> fails and every other command succeeds, and in
  which \<^verbatim>\<open>strcase.ToSnake\<close> leaves the lower-case names used here as they are. Three
  hooks: \<open>hook_warn\<close> fails and may fail, \<open>hook_guard\<close> fails and must succeed,
  \<open>hook_last\<close> succeeds.
\<close>

definition ext_demo :: extern where
  "ext_demo =
     \<lparr>strcase_ToSnake = (\<lambda>name. name),
      command_result = (\<lambda>before ro.
        if RunOptions_Command ro = ''/bin/false'' then Inl (Errorf ''exit status 1'')
        else Inr ())\<rparr>"

definition hook_warn :: Hook where
  "hook_warn = \<lparr>Hook_Name = ''warn'', Hook_Command = ''/bin/false'', Hook_Args = [],
                Hook_MustSucceed = False\<rparr>"

definition hook_guard :: Hook where
  "hook_guard = \<lparr>Hook_Name = ''guard'', Hook_Command = ''/bin/false'', Hook_Args = [],
                 Hook_MustSucceed = True\<rparr>"

definition hook_last :: Hook where
  "hook_last = \<lparr>Hook_Name = ''last'', Hook_Command = ''/bin/true'', Hook_Args = [],
                Hook_MustSucceed = False\<rparr>"

definition hooks_demo :: Hooks where
  "hooks_demo = \<lparr>Hooks_Pre = [hook_warn, hook_guard, hook_last],
                 Hooks_Post = [hook_warn, hook_last]\<rparr>"

definition opts_wet :: HooksRunOptions where
  "opts_wet = \<lparr>HooksRunOptions_DryRun = False, HooksRunOptions_LoggerArgs = []\<rparr>"

definition hopts_dry :: HookRunOptions where
  "hopts_dry = \<lparr>HookRunOptions_HookType = ''pre'', HookRunOptions_DryRun = True,
                HookRunOptions_LoggerArgs = []\<rparr>"

definition sys_empty :: sys where
  "sys_empty = \<lparr>sys_runs = [], sys_log = []\<rparr>"

text \<open>
  A manager with three services: \<open>pager\<close> answers with an error after four seconds,
  \<open>muted\<close> is not enabled, \<open>chat\<close> succeeds after one second. The surroundings
  \<open>net_start\<close> have the clock at 1000 seconds and nothing sent or logged.
\<close>

definition notifier_pager :: Notifier where
  "notifier_pager =
     \<lparr>Notifier_Name = ''pagerduty'', Notifier_IsEnabled = True,
      Notifier_Send = (\<lambda>ctx event s.
        (Inl (Errorf ''pagerduty API returned status 500''), 4000000000))\<rparr>"

definition notifier_muted :: Notifier where
  "notifier_muted =
     \<lparr>Notifier_Name = ''slack'', Notifier_IsEnabled = False,
      Notifier_Send = (\<lambda>ctx event s. (Inr (), 0))\<rparr>"

definition notifier_chat :: Notifier where
  "notifier_chat =
     \<lparr>Notifier_Name = ''discord'', Notifier_IsEnabled = True,
      Notifier_Send = (\<lambda>ctx event s. (Inr (), 1000000000))\<rparr>"

definition manager_demo :: Manager where
  "manager_demo =
     \<lparr>Manager_notifiers = [notifier_pager, notifier_muted, notifier_chat],
      Manager_enabled = True,
      Manager_eventFilter = events_all_on\<rparr>"

definition event_demo :: Event where
  "event_demo =
     \<lparr>Event_Type = EventBecameActive, Event_Severity = ''info'', Event_Timestamp = 0,
      Event_ValidatorName = ''validator-1'', Event_PublicIP = ''10.0.0.1'',
      Event_Cluster = ''testnet'', Event_ActivePubkey = [], Event_PassivePubkey = [],
      Event_Message = [], Event_Details = Map.empty\<rparr>"

definition net_start :: net where
  "net_start = \<lparr>net_clock = 1000 * time_Second, net_sends = [], net_log = []\<rparr>"

section \<open>Properties\<close>

subsection \<open>Validation of the failover configuration\<close>

text \<open>
  C6. \<^verbatim>\<open>Failover.Validate\<close> is to reject a poll interval or a leaderless threshold that
  is zero or negative. The threshold is tested with \<^verbatim>\<open><= 0\<close>, the poll interval with
  \<^verbatim>\<open>== 0\<close> only, under a comment and an error message that both say "must be greater
  than zero". So a negative poll interval passes: on the configuration
  \<open>cfg_negative_poll\<close>, whose poll interval is minus five seconds, validation returns
  \<^verbatim>\<open>nil\<close>, whatever the address check is, as long as it admits \<^verbatim>\<open>10.0.0.1\<close>.
\<close>

theorem Failover_Validate_accepts_negative_poll_interval:
  "validIPv4 ''10.0.0.1'' \<Longrightarrow>
     Failover_PollIntervalDuration cfg_negative_poll < 0 \<and>
     Failover_Validate validIPv4 cfg_negative_poll = Inr ()"
  by (simp add: Failover_Validate_def cfg_negative_poll_def role_plain_def no_hooks_def
        peers_one_def time_Second_def seen_def)

theorem Failover_Validate_accepts_negative_poll_interval_witness:
  "(\<lambda>ip. ip = ''10.0.0.1'') ''10.0.0.1'' \<and>
   Failover_Validate (\<lambda>ip. ip = ''10.0.0.1'') cfg_negative_poll = Inr ()"
  using Failover_Validate_accepts_negative_poll_interval [of "\<lambda>ip. ip = ''10.0.0.1''"]
  by simp

text \<open>
  C3. A post-hook that sets \<^verbatim>\<open>must_succeed\<close> is to be refused when the failover
  configuration is validated. \<^verbatim>\<open>Hook.Validate(false)\<close> refuses it, and so does
  \<^verbatim>\<open>Hooks.Validate\<close>, which calls it for every post-hook; \<^verbatim>\<open>Failover.Validate\<close> calls
  neither and repeats only their checks of the name and the command. On
  \<open>cfg_post_must_succeed\<close>, whose active role has one post-hook with
  \<^verbatim>\<open>must_succeed: true\<close>, \<^verbatim>\<open>Failover.Validate\<close> returns \<^verbatim>\<open>nil\<close>, while
  \<^verbatim>\<open>Hooks.Validate\<close> on the hooks of that same role returns the error.
\<close>

theorem Failover_Validate_accepts_post_hook_must_succeed:
  "validIPv4 ''10.0.0.1'' \<Longrightarrow>
     Hook_MustSucceed (hd (Hooks_Post (Role_Hooks (Failover_Active cfg_post_must_succeed)))) \<and>
     Failover_Validate validIPv4 cfg_post_must_succeed = Inr () \<and>
     Hook_Validate hook_post_must_succeed False =
       Inl (Errorf ''hook must_succeed not allowed for post hooks'') \<and>
     Hooks_Validate (Role_Hooks (Failover_Active cfg_post_must_succeed)) =
       Inl (Errorf ''hooks.post[0]: hook must_succeed not allowed for post hooks'')"
  by (simp add: Failover_Validate_def cfg_post_must_succeed_def role_plain_def no_hooks_def
        peers_one_def time_Second_def seen_def hook_post_must_succeed_def Hooks_Validate_def
        Hook_Validate_def digit_def)

theorem Failover_Validate_accepts_post_hook_must_succeed_witness:
  "(\<lambda>ip. ip = ''10.0.0.1'') ''10.0.0.1'' \<and>
   Failover_Validate (\<lambda>ip. ip = ''10.0.0.1'') cfg_post_must_succeed = Inr () \<and>
   Hooks_Validate (Role_Hooks (Failover_Active cfg_post_must_succeed)) =
     Inl (Errorf ''hooks.post[0]: hook must_succeed not allowed for post hooks'')"
  using Failover_Validate_accepts_post_hook_must_succeed [of "\<lambda>ip. ip = ''10.0.0.1''"]
  by simp

subsection \<open>Defaults\<close>

text \<open>
  C7, as the code has it. \<^verbatim>\<open>Failover.SetDefaults\<close> sees the struct only, where a key that
  was not set and a key set to 0 both read 0. It keeps every value other than 0 of
  \<^verbatim>\<open>takeover_jitter_seconds\<close>, \<^verbatim>\<open>poll_interval_duration\<close> and
  \<^verbatim>\<open>leaderless_threshold_duration\<close>, and replaces 0 by 3, by 5 s and by 15 s. The jitter
  is never validated: \<^verbatim>\<open>Failover.Validate\<close> returns the same for every value of it.
\<close>

theorem Failover_SetDefaults_replaces_zero_only:
  "Failover_TakeoverJitterSeconds (Failover_SetDefaults f) =
     (if Failover_TakeoverJitterSeconds f = 0 then 3 else Failover_TakeoverJitterSeconds f) \<and>
   Failover_PollIntervalDuration (Failover_SetDefaults f) =
     (if Failover_PollIntervalDuration f = 0 then 5 * time_Second
      else Failover_PollIntervalDuration f) \<and>
   Failover_LeaderlessThresholdDuration (Failover_SetDefaults f) =
     (if Failover_LeaderlessThresholdDuration f = 0 then 15 * time_Second
      else Failover_LeaderlessThresholdDuration f) \<and>
   Failover_Validate validIPv4 (f\<lparr>Failover_TakeoverJitterSeconds := j\<rparr>) =
     Failover_Validate validIPv4 f"
proof -
  have "Failover_Validate validIPv4 (f\<lparr>Failover_TakeoverJitterSeconds := j\<rparr>) =
        Failover_Validate validIPv4 f"
    by (simp add: Failover_Validate_def split: sum.split)
  then show ?thesis
    by (simp add: Failover_SetDefaults_def Let_def)
qed

theorem Failover_SetDefaults_replaces_zero_only_witness:
  "Failover_TakeoverJitterSeconds (Failover_SetDefaults (cfg_jitter 7)) = 7 \<and>
   Failover_TakeoverJitterSeconds (Failover_SetDefaults (cfg_jitter 0)) = 3 \<and>
   Failover_PollIntervalDuration (Failover_SetDefaults (cfg_jitter 7)) = 2000000000 \<and>
   Failover_LeaderlessThresholdDuration (Failover_SetDefaults (cfg_jitter 7)) = 15000000000"
  using Failover_SetDefaults_replaces_zero_only [of "cfg_jitter 7"]
    Failover_SetDefaults_replaces_zero_only [of "cfg_jitter 0"]
  by (simp add: cfg_jitter_def time_Second_def)

text \<open>
  C7, as the claim has it, fails: a jitter explicitly configured as 0 is not preserved.
  The struct decoded from \<^verbatim>\<open>takeover_jitter_seconds: 0\<close> holds 0, and after
  \<^verbatim>\<open>SetDefaults\<close> it holds 3.
\<close>

theorem Failover_SetDefaults_overwrites_configured_zero:
  "Failover_TakeoverJitterSeconds (cfg_jitter 0) = 0 \<and>
   Failover_TakeoverJitterSeconds (Failover_SetDefaults (cfg_jitter 0)) \<noteq>
     Failover_TakeoverJitterSeconds (cfg_jitter 0)"
  by (simp add: Failover_SetDefaults_def cfg_jitter_def Let_def time_Second_def)

text \<open>
  C10. \<^verbatim>\<open>NotificationConfig.SetDefaults\<close> turns all thirteen event flags on, whatever
  they were before, while the parse mode of Telegram, the user names of Discord and Slack
  and the icon of Slack get their default only when they are empty.
\<close>

theorem NotificationConfig_SetDefaults_events_all_true:
  "Events (NotificationConfig_SetDefaults n) =
     \<lparr>Startup = True, Shutdown = True, BecomingActive = True, BecameActive = True,
      BecomingPassive = True, BecamePassive = True, HealthUnhealthy = True,
      HealthRecovered = True, Delinquent = True, GossipLost = True,
      GossipRecovered = True, PeerDiscovered = True, PeerLost = True\<rparr> \<and>
   Telegram_ParseMode (Telegram (NotificationConfig_SetDefaults n)) =
     (if Telegram_ParseMode (Telegram n) = [] then ''HTML''
      else Telegram_ParseMode (Telegram n)) \<and>
   Discord_Username (Discord (NotificationConfig_SetDefaults n)) =
     (if Discord_Username (Discord n) = [] then ''Solana HA Bot''
      else Discord_Username (Discord n)) \<and>
   Slack_Username (Slack (NotificationConfig_SetDefaults n)) =
     (if Slack_Username (Slack n) = [] then ''Solana HA Bot''
      else Slack_Username (Slack n)) \<and>
   Slack_IconEmoji (Slack (NotificationConfig_SetDefaults n)) =
     (if Slack_IconEmoji (Slack n) = [] then '':robot_face:''
      else Slack_IconEmoji (Slack n))"
  by (simp add: NotificationConfig_SetDefaults_def SetDefaults_Events_def Let_def)

theorem NotificationConfig_SetDefaults_events_all_true_witness:
  "Events notif_quiet = events_all_off \<and>
   Events (NotificationConfig_SetDefaults notif_quiet) = events_all_on \<and>
   Telegram_ParseMode (Telegram (NotificationConfig_SetDefaults notif_quiet)) = ''Markdown'' \<and>
   Discord_Username (Discord (NotificationConfig_SetDefaults notif_quiet)) = ''Solana HA Bot''"
  using NotificationConfig_SetDefaults_events_all_true [of notif_quiet]
  by (simp add: notif_quiet_def events_all_on_def)

subsection \<open>Running one hook\<close>

text \<open>
  C4. With \<^verbatim>\<open>DryRun\<close> set, \<^verbatim>\<open>Hook.Run\<close> returns \<^verbatim>\<open>nil\<close> and leaves the surroundings
  as they were, whatever the hook is: no call of \<^verbatim>\<open>command.Run\<close> is made, so no process
  is started, and nothing is logged.
\<close>

theorem Hook_Run_dry_run_spawns_nothing:
  "HookRunOptions_DryRun opts \<Longrightarrow> Hook_Run ext h opts s = (Inr (), s)"
  by (simp add: Hook_Run_def)

theorem Hook_Run_dry_run_spawns_nothing_witness:
  "HookRunOptions_DryRun hopts_dry \<and>
   Hook_Run ext_demo hook_guard hopts_dry sys_empty = (Inr (), sys_empty)"
proof -
  have d: "HookRunOptions_DryRun hopts_dry" by (simp add: hopts_dry_def)
  from d Hook_Run_dry_run_spawns_nothing [OF d, of ext_demo hook_guard sys_empty]
  show ?thesis by simp
qed

subsection \<open>The rank of the peers\<close>

lemma GetRankedIPs_loop_other:
  "ip \<notin> set ips \<Longrightarrow> GetRankedIPs_loop i ips m ip = m ip"
  by (induction ips arbitrary: i m) auto

lemma GetRankedIPs_loop_nth:
  "distinct ips \<Longrightarrow> k < length ips \<Longrightarrow>
     GetRankedIPs_loop i ips m (ips ! k) = Some (int (i + k) + 1)"
proof (induction ips arbitrary: i m k)
  case Nil
  then show ?case by simp
next
  case (Cons x xs)
  show ?case
  proof (cases k)
    case 0
    with Cons.prems show ?thesis by (simp add: GetRankedIPs_loop_other)
  next
    case (Suc k')
    with Cons.prems have "GetRankedIPs_loop (Suc i) xs (m(x \<mapsto> int i + 1)) (xs ! k') =
        Some (int (Suc i + k') + 1)"
      by (intro Cons.IH) auto
    with Suc show ?thesis by simp
  qed
qed

lemma ranked_sorted_nth:
  assumes "distinct (Peers_GetIPs p)" and "k < length p"
  shows "Peers_GetRankedIPs p (sort_Strings (Peers_GetIPs p) ! k) = Some (int k + 1)"
  using assms GetRankedIPs_loop_nth [of "sort_Strings (Peers_GetIPs p)" k 0 Map.empty]
  by (simp add: Peers_GetRankedIPs_def sort_Strings_def Peers_GetIPs_def)

lemma ranked_None:
  "ip \<notin> set (Peers_GetIPs p) \<Longrightarrow> Peers_GetRankedIPs p ip = None"
  by (simp add: Peers_GetRankedIPs_def sort_Strings_def GetRankedIPs_loop_other)

lemma ranked_Some_nth:
  assumes d: "distinct (Peers_GetIPs p)" and s: "Peers_GetRankedIPs p ip = Some r"
  shows "\<exists>k < length p. sort_Strings (Peers_GetIPs p) ! k = ip \<and> r = int k + 1"
proof -
  have "ip \<in> set (sort_Strings (Peers_GetIPs p))"
    using s ranked_None [of ip p] by (auto simp: sort_Strings_def)
  then obtain k where k: "k < length (sort_Strings (Peers_GetIPs p))"
      "sort_Strings (Peers_GetIPs p) ! k = ip"
    by (auto simp: in_set_conv_nth)
  then have kl: "k < length p" by (simp add: sort_Strings_def Peers_GetIPs_def)
  with ranked_sorted_nth [OF d kl] k s show ?thesis by auto
qed

lemma same_map_same_sorted:
  assumes "Peers_wf p" "Peers_wf q" "map_of q = map_of p" "distinct (Peers_GetIPs p)"
  shows "sort_Strings (Peers_GetIPs q) = sort_Strings (Peers_GetIPs p)"
proof -
  have sets: "set q = set p"
    using assms(1-3) by (simp add: Peers_wf_def map_of_inject_set)
  have dq: "distinct q" and dp: "distinct p"
    using assms(1,2) by (auto simp: Peers_wf_def distinct_map)
  have "inj_on (\<lambda>(name, peer). Peer_IP peer) (set p)"
    using assms(4) by (simp add: Peers_GetIPs_def distinct_map)
  then have "distinct (Peers_GetIPs q)"
    using dq sets by (simp add: Peers_GetIPs_def distinct_map)
  moreover have "set (Peers_GetIPs q) = set (Peers_GetIPs p)"
    using sets by (simp add: Peers_GetIPs_def)
  ultimately show ?thesis
    using assms(4) unfolding sort_Strings_def
    by (intro sorted_distinct_set_unique) simp_all
qed

text \<open>
  C1. For a peers map with pairwise distinct addresses, \<^verbatim>\<open>GetRankedIPs\<close> gives a rank
  to exactly the configured addresses; the ranks are exactly the numbers from 1 to the
  number of peers, no two addresses share one, a smaller string gets a smaller rank, and
  the result is the same for every order in which the map may be iterated.
\<close>

theorem Peers_GetRankedIPs_rank:
  assumes wf: "Peers_wf p" and d: "distinct (Peers_GetIPs p)"
  shows "dom (Peers_GetRankedIPs p) = set (Peers_GetIPs p) \<and>
         ran (Peers_GetRankedIPs p) = {1 .. int (length p)} \<and>
         inj_on (Peers_GetRankedIPs p) (set (Peers_GetIPs p)) \<and>
         (\<forall>a b i j. Peers_GetRankedIPs p a = Some i \<and> Peers_GetRankedIPs p b = Some j \<and> a < b
            \<longrightarrow> i < j) \<and>
         (\<forall>q. Peers_wf q \<and> map_of q = map_of p
            \<longrightarrow> Peers_GetRankedIPs q = Peers_GetRankedIPs p)"
proof -
  let ?R = "Peers_GetRankedIPs p"
  let ?xs = "sort_Strings (Peers_GetIPs p)"
  have len: "length ?xs = length p" by (simp add: sort_Strings_def Peers_GetIPs_def)
  have setxs: "set ?xs = set (Peers_GetIPs p)" by (simp add: sort_Strings_def)
  have srt: "sorted ?xs" by (simp add: sort_Strings_def)
  have nth: "\<And>k. k < length p \<Longrightarrow> ?R (?xs ! k) = Some (int k + 1)"
    by (rule ranked_sorted_nth [OF d])
  have inv: "\<And>ip r. ?R ip = Some r \<Longrightarrow> \<exists>k < length p. ?xs ! k = ip \<and> r = int k + 1"
    by (rule ranked_Some_nth [OF d])
  have dom: "dom ?R = set (Peers_GetIPs p)"
  proof (intro set_eqI iffI)
    fix ip assume "ip \<in> dom ?R"
    then obtain y where "?R ip = Some y" by auto
    then show "ip \<in> set (Peers_GetIPs p)"
      using ranked_None [of ip p] by (cases "ip \<in> set (Peers_GetIPs p)") simp_all
  next
    fix ip assume "ip \<in> set (Peers_GetIPs p)"
    then obtain k where "k < length ?xs" "?xs ! k = ip"
      unfolding setxs [symmetric] by (auto simp: in_set_conv_nth)
    then show "ip \<in> dom ?R" using nth [of k] len by auto
  qed
  have ran: "ran ?R = {1 .. int (length p)}"
  proof (intro set_eqI iffI)
    fix r assume "r \<in> ran ?R"
    then obtain ip where "?R ip = Some r" by (auto simp: ran_def)
    from inv [OF this] show "r \<in> {1 .. int (length p)}" by auto
  next
    fix r assume r: "r \<in> {1 .. int (length p)}"
    then have "nat (r - 1) < length p" by auto
    from nth [OF this] r have "?R (?xs ! nat (r - 1)) = Some r" by simp
    then show "r \<in> ran ?R" by (auto simp: ran_def)
  qed
  have inj: "inj_on ?R (set (Peers_GetIPs p))"
  proof (rule inj_onI)
    fix a b assume a: "a \<in> set (Peers_GetIPs p)" and b: "b \<in> set (Peers_GetIPs p)"
      and eq: "?R a = ?R b"
    from a dom obtain r where ra: "?R a = Some r" by auto
    with eq have rb: "?R b = Some r" by simp
    from inv [OF ra] inv [OF rb] show "a = b" by auto
  qed
  have mono: "\<forall>a b i j. ?R a = Some i \<and> ?R b = Some j \<and> a < b \<longrightarrow> i < j"
  proof (intro allI impI)
    fix a b i j assume h: "?R a = Some i \<and> ?R b = Some j \<and> a < b"
    then obtain ka kb where ka: "ka < length p" "?xs ! ka = a" "i = int ka + 1"
      and kb: "kb < length p" "?xs ! kb = b" "j = int kb + 1"
      using inv by blast
    have "ka < kb"
    proof (rule ccontr)
      assume "\<not> ka < kb"
      then have "kb \<le> ka" by simp
      with srt ka(1) len have "?xs ! kb \<le> ?xs ! ka" by (simp add: sorted_iff_nth_mono)
      with ka(2) kb(2) have "b \<le> a" by simp
      with h show False using leD [of b a] by blast
    qed
    with ka kb show "i < j" by simp
  qed
  have indep: "\<forall>q. Peers_wf q \<and> map_of q = map_of p \<longrightarrow> Peers_GetRankedIPs q = ?R"
    using same_map_same_sorted [OF wf _ _ d] by (simp add: Peers_GetRankedIPs_def)
  from dom ran inj mono indep show ?thesis by blast
qed

lemma sort_Strings_peers_three: "sort_Strings (Peers_GetIPs peers_three) = [''10.0.0.1'', ''10.0.0.10'', ''10.0.0.2'']"
  by (simp add: sort_Strings_def Peers_GetIPs_def peers_three_def)

theorem Peers_GetRankedIPs_rank_witness: "Peers_wf peers_three \<and> distinct (Peers_GetIPs peers_three) \<and>
  dom (Peers_GetRankedIPs peers_three) = {''10.0.0.1'', ''10.0.0.10'', ''10.0.0.2''} \<and>
  ran (Peers_GetRankedIPs peers_three) = {1 .. 3} \<and>
  Peers_GetRankedIPs peers_three ''10.0.0.1'' = Some 1 \<and>
  Peers_GetRankedIPs peers_three ''10.0.0.10'' = Some 2 \<and>
  Peers_GetRankedIPs peers_three ''10.0.0.2'' = Some 3 \<and>
  Peers_GetRankedIPs (rev peers_three) = Peers_GetRankedIPs peers_three"
proof -
  have wf: "Peers_wf peers_three" by (simp add: Peers_wf_def peers_three_def)
  have d: "distinct (Peers_GetIPs peers_three)" by (simp add: Peers_GetIPs_def peers_three_def)
  have wfr: "Peers_wf (rev peers_three)" by (simp add: Peers_wf_def peers_three_def)
  have m: "map_of (rev peers_three) = map_of peers_three"
    by (rule map_of_inject_set [THEN iffD2]) (auto simp add: peers_three_def)
  have ips: "set (Peers_GetIPs peers_three) = {''10.0.0.1'', ''10.0.0.10'', ''10.0.0.2''}"
    by (auto simp add: Peers_GetIPs_def peers_three_def)
  have r: "Peers_GetRankedIPs peers_three ''10.0.0.1'' = Some 1"
     "Peers_GetRankedIPs peers_three ''10.0.0.10'' = Some 2"
     "Peers_GetRankedIPs peers_three ''10.0.0.2'' = Some 3"
    by (simp_all add: Peers_GetRankedIPs_def sort_Strings_peers_three)
  note T = Peers_GetRankedIPs_rank [OF wf d]
  have dom: "dom (Peers_GetRankedIPs peers_three) = {''10.0.0.1'', ''10.0.0.10'', ''10.0.0.2''}"
    using T [THEN conjunct1] ips by simp
  have ran: "ran (Peers_GetRankedIPs peers_three) = {1 .. 3}"
    using T [THEN conjunct2, THEN conjunct1] by (simp add: peers_three_def)
  have indep: "Peers_GetRankedIPs (rev peers_three) = Peers_GetRankedIPs peers_three"
    using T [THEN conjunct2, THEN conjunct2, THEN conjunct2, THEN conjunct2] wfr m by blast
  from wf d dom ran r indep show ?thesis by (intro conjI)
qed

subsection \<open>Hook chains\<close>

lemma Hook_Run_dry: "HookRunOptions_DryRun hopts \<Longrightarrow> Hook_Run ext h hopts s = (Inr (), s)"
  by (simp add: Hook_Run_def)

lemma Hook_Run_wet:
  "\<not> HookRunOptions_DryRun hopts \<Longrightarrow>
     Hook_Run ext h hopts s =
       (command_result ext (sys_runs s) (Hook_RunOptions ext h hopts),
        s\<lparr>sys_runs := sys_runs s @ [Hook_RunOptions ext h hopts],
          sys_log := sys_log s @ [Log InfoLevel ''running hook'' (Hook_loggerArgs ext h hopts)]\<rparr>)"
  by (simp add: Hook_Run_def command_Run_def log_Info_def)

text \<open>
  \<open>nth_hook_result\<close> is the result of \<^verbatim>\<open>Hook.Run\<close> on that hook in surroundings where
  the hooks before it have been run.
\<close>

lemma nth_hook_result_is_Hook_Run:
  "sys_runs s = before @ chain_runs ext hopts hooks i \<Longrightarrow>
     fst (Hook_Run ext (hooks ! i) hopts s) = nth_hook_result ext hopts before hooks i"
  by (cases "HookRunOptions_DryRun hopts")
     (simp_all add: Hook_Run_dry Hook_Run_wet nth_hook_result_def)

lemma concat_map_upt_Suc:
  "concat (map f [0..<Suc n]) = f 0 @ concat (map (\<lambda>i. f (Suc i)) [0..<n])"
proof -
  have "[0..<Suc n] = 0 # map Suc [0..<n]"
    by (simp add: upt_conv_Cons map_Suc_upt del: upt_Suc)
  then show ?thesis by (simp add: comp_def del: upt_Suc)
qed

lemma nth_hook_result_0:
  "\<not> HookRunOptions_DryRun hopts \<Longrightarrow>
   nth_hook_result ext hopts before (h # t) 0 = command_result ext before (Hook_RunOptions ext h hopts)"
  by (simp add: nth_hook_result_def chain_runs_def)

lemma nth_hook_result_Suc:
  "\<not> HookRunOptions_DryRun hopts \<Longrightarrow>
   nth_hook_result ext hopts before (h # t) (Suc i) =
   nth_hook_result ext hopts (before @ [Hook_RunOptions ext h hopts]) t i"
  by (simp add: nth_hook_result_def chain_runs_def)

lemma hook_vetoes_Suc:
  "\<not> HookRunOptions_DryRun hopts \<Longrightarrow>
   hook_vetoes ext hopts before (h # t) (Suc i) =
   hook_vetoes ext hopts (before @ [Hook_RunOptions ext h hopts]) t i"
  by (simp add: hook_vetoes_def nth_hook_result_Suc)

lemma pre_hook_log_Suc:
  "\<not> HookRunOptions_DryRun hopts \<Longrightarrow>
   pre_hook_log ext hopts before (h # t) (Suc i) =
   pre_hook_log ext hopts (before @ [Hook_RunOptions ext h hopts]) t i"
  by (simp add: pre_hook_log_def nth_hook_result_Suc running_hook_log_def)

lemma post_hook_log_Suc:
  "\<not> HookRunOptions_DryRun hopts \<Longrightarrow>
   post_hook_log ext hopts before (h # t) (Suc i) =
   post_hook_log ext hopts (before @ [Hook_RunOptions ext h hopts]) t i"
  by (simp add: post_hook_log_def nth_hook_result_Suc running_hook_log_def)

lemma chain_runs_Suc:
  "\<not> HookRunOptions_DryRun hopts \<Longrightarrow>
   chain_runs ext hopts (h # t) (Suc n) = Hook_RunOptions ext h hopts # chain_runs ext hopts t n"
  by (simp add: chain_runs_def)

lemma RunPre_loop_dry:
  "HookRunOptions_DryRun hopts \<Longrightarrow> RunPre_loop ext hopts hooks s = (Inr (), s)"
  by (induction hooks) (simp_all add: Hook_Run_dry)

lemma RunPost_loop_dry:
  "HookRunOptions_DryRun hopts \<Longrightarrow> RunPost_loop ext hopts hooks s = s"
  by (induction hooks) (simp_all add: Hook_Run_dry)

text \<open>The surroundings as a chain leaves them, when it is not a dry run.\<close>

lemma RunPost_loop_wet:
  "\<not> HookRunOptions_DryRun hopts \<Longrightarrow>
   RunPost_loop ext hopts hooks s =
     s\<lparr>sys_runs := sys_runs s @ chain_runs ext hopts hooks (length hooks),
       sys_log := sys_log s @
         concat (map (post_hook_log ext hopts (sys_runs s) hooks) [0..<length hooks])\<rparr>"
proof (induction hooks arbitrary: s)
  case Nil
  then show ?case by (simp add: chain_runs_def)
next
  case (Cons h t)
  note wet = Cons.prems
  let ?s1 = "s\<lparr>sys_runs := sys_runs s @ [Hook_RunOptions ext h hopts],
          sys_log := sys_log s @ [Log InfoLevel ''running hook'' (Hook_loggerArgs ext h hopts)]\<rparr>"
  let ?r = "command_result ext (sys_runs s) (Hook_RunOptions ext h hopts)"
  have log0: "post_hook_log ext hopts (sys_runs s) (h # t) 0 =
      Log InfoLevel ''running hook'' (Hook_loggerArgs ext h hopts) #
      (if ?r \<noteq> Inr () then hook_failed_log hopts else [])"
    using wet by (simp add: post_hook_log_def running_hook_log_def nth_hook_result_0)
  have shift: "(\<lambda>i. post_hook_log ext hopts (sys_runs s) (h # t) (Suc i)) =
        post_hook_log ext hopts (sys_runs s @ [Hook_RunOptions ext h hopts]) t"
    using wet by (simp add: post_hook_log_Suc fun_eq_iff)
  show ?case
  proof (cases ?r)
    case (Inl err)
    then show ?thesis
      using wet Cons.IH [OF wet, of "log_Error ''hook failed'' (HookRunOptions_LoggerArgs hopts) ?s1"]
      by (simp add: Hook_Run_wet concat_map_upt_Suc log0 shift chain_runs_Suc log_Error_def
            hook_failed_log_def del: upt_Suc)
  next
    case (Inr u)
    then show ?thesis
      using wet Cons.IH [OF wet, of ?s1]
      by (simp add: Hook_Run_wet concat_map_upt_Suc log0 shift chain_runs_Suc del: upt_Suc)
  qed
qed


lemma RunPre_loop_no_veto:
  "\<not> HookRunOptions_DryRun hopts \<Longrightarrow>
   \<forall>i. \<not> hook_vetoes ext hopts (sys_runs s) hooks i \<Longrightarrow>
   RunPre_loop ext hopts hooks s =
     (Inr (),
      s\<lparr>sys_runs := sys_runs s @ chain_runs ext hopts hooks (length hooks),
        sys_log := sys_log s @
          concat (map (pre_hook_log ext hopts (sys_runs s) hooks) [0..<length hooks])\<rparr>)"
proof (induction hooks arbitrary: s)
  case Nil
  then show ?case by (simp add: chain_runs_def)
next
  case (Cons h t)
  note wet = Cons.prems(1)
  let ?ro = "Hook_RunOptions ext h hopts"
  let ?s1 = "s\<lparr>sys_runs := sys_runs s @ [?ro],
          sys_log := sys_log s @ [Log InfoLevel ''running hook'' (Hook_loggerArgs ext h hopts)]\<rparr>"
  let ?r = "command_result ext (sys_runs s) ?ro"
  have log0: "pre_hook_log ext hopts (sys_runs s) (h # t) 0 =
      Log InfoLevel ''running hook'' (Hook_loggerArgs ext h hopts) #
      (if ?r \<noteq> Inr () \<and> \<not> Hook_MustSucceed h then hook_failed_log hopts else [])"
    using wet by (simp add: pre_hook_log_def running_hook_log_def nth_hook_result_0)
  have shift: "(\<lambda>i. pre_hook_log ext hopts (sys_runs s) (h # t) (Suc i)) =
        pre_hook_log ext hopts (sys_runs s @ [?ro]) t"
    using wet by (simp add: pre_hook_log_Suc fun_eq_iff)
  have no0: "\<not> hook_vetoes ext hopts (sys_runs s) (h # t) 0"
    using Cons.prems(2) by blast
  have rest: "\<forall>i. \<not> hook_vetoes ext hopts (sys_runs s @ [?ro]) t i"
    using Cons.prems(2) wet by (simp add: hook_vetoes_Suc [symmetric])
  show ?case
  proof (cases ?r)
    case (Inl err)
    with no0 wet have must: "\<not> Hook_MustSucceed h"
      by (auto simp: hook_vetoes_def nth_hook_result_0)
    from Inl must rest wet
      Cons.IH [OF wet, of "log_Error ''hook failed'' (HookRunOptions_LoggerArgs hopts) ?s1"]
    show ?thesis
      by (simp add: Hook_Run_wet concat_map_upt_Suc log0 shift chain_runs_Suc log_Error_def
            hook_failed_log_def del: upt_Suc)
  next
    case (Inr u)
    with rest wet Cons.IH [OF wet, of ?s1] show ?thesis
      by (simp add: Hook_Run_wet concat_map_upt_Suc log0 shift chain_runs_Suc del: upt_Suc)
  qed
qed

lemma RunPre_loop_veto:
  "\<not> HookRunOptions_DryRun hopts \<Longrightarrow>
   hook_vetoes ext hopts (sys_runs s) hooks k \<Longrightarrow>
   \<forall>j<k. \<not> hook_vetoes ext hopts (sys_runs s) hooks j \<Longrightarrow>
   RunPre_loop ext hopts hooks s =
     (nth_hook_result ext hopts (sys_runs s) hooks k,
      s\<lparr>sys_runs := sys_runs s @ chain_runs ext hopts hooks (Suc k),
        sys_log := sys_log s @
          concat (map (pre_hook_log ext hopts (sys_runs s) hooks) [0..<Suc k])\<rparr>)"
proof (induction hooks arbitrary: s k)
  case Nil
  then show ?case by (simp add: hook_vetoes_def)
next
  case (Cons h t)
  note wet = Cons.prems(1)
  let ?ro = "Hook_RunOptions ext h hopts"
  let ?s1 = "s\<lparr>sys_runs := sys_runs s @ [?ro],
          sys_log := sys_log s @ [Log InfoLevel ''running hook'' (Hook_loggerArgs ext h hopts)]\<rparr>"
  let ?r = "command_result ext (sys_runs s) ?ro"
  have log0: "pre_hook_log ext hopts (sys_runs s) (h # t) 0 =
      Log InfoLevel ''running hook'' (Hook_loggerArgs ext h hopts) #
      (if ?r \<noteq> Inr () \<and> \<not> Hook_MustSucceed h then hook_failed_log hopts else [])"
    using wet by (simp add: pre_hook_log_def running_hook_log_def nth_hook_result_0)
  have shift: "(\<lambda>i. pre_hook_log ext hopts (sys_runs s) (h # t) (Suc i)) =
        pre_hook_log ext hopts (sys_runs s @ [?ro]) t"
    using wet by (simp add: pre_hook_log_Suc fun_eq_iff)
  show ?case
  proof (cases k)
    case 0
    with Cons.prems(2) wet have must: "Hook_MustSucceed h" and bad: "?r \<noteq> Inr ()"
      by (auto simp: hook_vetoes_def nth_hook_result_0)
    from bad obtain err where "?r = Inl err" by (cases ?r) auto
    with 0 must wet show ?thesis
      by (simp add: Hook_Run_wet log0 chain_runs_def nth_hook_result_0)
  next
    case (Suc k')
    with Cons.prems(3) have no0: "\<not> hook_vetoes ext hopts (sys_runs s) (h # t) 0"
      by blast
    have vk: "hook_vetoes ext hopts (sys_runs s @ [?ro]) t k'"
      using Cons.prems(2) Suc wet by (simp add: hook_vetoes_Suc)
    have before: "\<forall>j<k'. \<not> hook_vetoes ext hopts (sys_runs s @ [?ro]) t j"
    proof (intro allI impI)
      fix j assume "j < k'"
      then have "Suc j < k" using Suc by simp
      with Cons.prems(3) have "\<not> hook_vetoes ext hopts (sys_runs s) (h # t) (Suc j)" by blast
      then show "\<not> hook_vetoes ext hopts (sys_runs s @ [?ro]) t j"
        using wet by (simp add: hook_vetoes_Suc)
    qed
    show ?thesis
    proof (cases ?r)
      case (Inl err)
      with no0 wet have must: "\<not> Hook_MustSucceed h"
        by (auto simp: hook_vetoes_def nth_hook_result_0)
      let ?s2 = "log_Error ''hook failed'' (HookRunOptions_LoggerArgs hopts) ?s1"
      have "RunPre_loop ext hopts t ?s2 =
         (nth_hook_result ext hopts (sys_runs ?s2) t k',
          ?s2\<lparr>sys_runs := sys_runs ?s2 @ chain_runs ext hopts t (Suc k'),
             sys_log := sys_log ?s2 @
               concat (map (pre_hook_log ext hopts (sys_runs ?s2) t) [0..<Suc k'])\<rparr>)"
        using vk before by (intro Cons.IH [OF wet]) (simp_all add: log_Error_def)
      with Inl must wet Suc show ?thesis
        by (simp add: Hook_Run_wet concat_map_upt_Suc [of _ "Suc k'"] log0 shift chain_runs_Suc
              log_Error_def hook_failed_log_def nth_hook_result_Suc del: upt_Suc)
    next
      case (Inr u)
      have "RunPre_loop ext hopts t ?s1 =
         (nth_hook_result ext hopts (sys_runs ?s1) t k',
          ?s1\<lparr>sys_runs := sys_runs ?s1 @ chain_runs ext hopts t (Suc k'),
             sys_log := sys_log ?s1 @
               concat (map (pre_hook_log ext hopts (sys_runs ?s1) t) [0..<Suc k'])\<rparr>)"
        using vk before by (intro Cons.IH [OF wet]) simp_all
      with Inr wet Suc show ?thesis
        by (simp add: Hook_Run_wet concat_map_upt_Suc [of _ "Suc k'"] log0 shift chain_runs_Suc
              nth_hook_result_Suc del: upt_Suc)
    qed
  qed
qed

lemma chain_runs_all:
  "chain_runs ext hopts hooks (length hooks) =
     (if HookRunOptions_DryRun hopts then [] else map (\<lambda>h. Hook_RunOptions ext h hopts) hooks)"
  by (simp add: chain_runs_def)

lemma dry_no_veto: "HookRunOptions_DryRun hopts \<Longrightarrow> \<not> hook_vetoes ext hopts before hooks i"
  by (simp add: hook_vetoes_def nth_hook_result_def)

lemma dry_concat_pre_log:
  "HookRunOptions_DryRun hopts \<Longrightarrow>
   concat (map (pre_hook_log ext hopts before hooks) [0..<n]) = []"
  by (simp add: pre_hook_log_def running_hook_log_def nth_hook_result_def)

lemma dry_concat_post_log:
  "HookRunOptions_DryRun hopts \<Longrightarrow>
   concat (map (post_hook_log ext hopts before hooks) [0..<n]) = []"
  by (simp add: post_hook_log_def running_hook_log_def nth_hook_result_def)

lemma RunPre_loop_no_veto_any:
  assumes "\<forall>i. \<not> hook_vetoes ext hopts (sys_runs s) hooks i"
  shows "RunPre_loop ext hopts hooks s =
     (Inr (),
      s\<lparr>sys_runs := sys_runs s @ chain_runs ext hopts hooks (length hooks),
        sys_log := sys_log s @
          concat (map (pre_hook_log ext hopts (sys_runs s) hooks) [0..<length hooks])\<rparr>)"
proof (cases "HookRunOptions_DryRun hopts")
  case True
  then show ?thesis
    by (simp add: RunPre_loop_dry dry_concat_pre_log chain_runs_def)
next
  case False
  then show ?thesis using assms by (rule RunPre_loop_no_veto)
qed

text \<open>
  C2. \<^verbatim>\<open>RunPre\<close> runs the pre-hooks in the listed order. It returns an error exactly
  when some hook vetoes the chain, that is, has \<^verbatim>\<open>must_succeed\<close> and fails. Then the
  error is that of the first such hook, the hooks up to and including it have been run,
  in order, and no later one. A hook without \<^verbatim>\<open>must_succeed\<close> that fails leaves the
  line \<^verbatim>\<open>hook failed\<close> in the log and the chain goes on; when no hook vetoes, every hook
  has been run (none is started in a dry run) and the result is \<^verbatim>\<open>nil\<close>.
\<close>

theorem Hooks_RunPre_first_veto:
  fixes ext :: extern and h :: Hooks and opts :: HooksRunOptions and s :: sys
  defines "hopts \<equiv> RunPre_HookRunOptions opts"
    and "hooks \<equiv> Hooks_Pre h"
    and "before \<equiv> sys_runs s"
    and "out \<equiv> Hooks_RunPre ext h opts s"
  shows
    "((\<exists>err. fst out = Inl err) \<longleftrightarrow> (\<exists>i. hook_vetoes ext hopts before hooks i)) \<and>
     (\<forall>k. hook_vetoes ext hopts before hooks k \<and>
          (\<forall>j<k. \<not> hook_vetoes ext hopts before hooks j) \<longrightarrow>
        fst out = nth_hook_result ext hopts before hooks k \<and>
        sys_runs (snd out) = before @ map (\<lambda>h. Hook_RunOptions ext h hopts) (take (Suc k) hooks) \<and>
        sys_log (snd out) =
          sys_log s @ concat (map (pre_hook_log ext hopts before hooks) [0..<Suc k])) \<and>
     ((\<forall>i. \<not> hook_vetoes ext hopts before hooks i) \<longrightarrow>
        fst out = Inr () \<and>
        sys_runs (snd out) = before @
          (if HooksRunOptions_DryRun opts then []
           else map (\<lambda>h. Hook_RunOptions ext h hopts) hooks) \<and>
        sys_log (snd out) =
          sys_log s @ concat (map (pre_hook_log ext hopts before hooks) [0..<length hooks]))"
proof -
  have out: "out = RunPre_loop ext hopts hooks s"
    by (simp add: out_def Hooks_RunPre_def hopts_def hooks_def)
  have dry: "HookRunOptions_DryRun hopts = HooksRunOptions_DryRun opts"
    by (simp add: hopts_def RunPre_HookRunOptions_def)
  have veto: "fst out = nth_hook_result ext hopts before hooks k \<and>
        sys_runs (snd out) = before @ map (\<lambda>h. Hook_RunOptions ext h hopts) (take (Suc k) hooks) \<and>
        sys_log (snd out) =
          sys_log s @ concat (map (pre_hook_log ext hopts before hooks) [0..<Suc k])"
    if v: "hook_vetoes ext hopts before hooks k"
      and least: "\<forall>j<k. \<not> hook_vetoes ext hopts before hooks j" for k
  proof -
    have wet: "\<not> HookRunOptions_DryRun hopts"
      using v dry_no_veto by blast
    from RunPre_loop_veto [OF wet v [unfolded before_def] least [unfolded before_def]] wet
    show ?thesis
      by (simp add: out before_def chain_runs_def del: upt_Suc)
  qed
  have none: "fst out = Inr () \<and>
        sys_runs (snd out) = before @
          (if HooksRunOptions_DryRun opts then []
           else map (\<lambda>h. Hook_RunOptions ext h hopts) hooks) \<and>
        sys_log (snd out) =
          sys_log s @ concat (map (pre_hook_log ext hopts before hooks) [0..<length hooks])"
    if "\<forall>i. \<not> hook_vetoes ext hopts before hooks i"
    using RunPre_loop_no_veto_any [OF that [unfolded before_def]]
    by (simp add: out before_def chain_runs_all dry)
  have iff: "(\<exists>err. fst out = Inl err) \<longleftrightarrow> (\<exists>i. hook_vetoes ext hopts before hooks i)"
  proof
    assume "\<exists>err. fst out = Inl err"
    then show "\<exists>i. hook_vetoes ext hopts before hooks i"
      using none by (cases "\<exists>i. hook_vetoes ext hopts before hooks i") auto
  next
    assume "\<exists>i. hook_vetoes ext hopts before hooks i"
    then obtain k where v: "hook_vetoes ext hopts before hooks k"
      and least: "\<forall>j<k. \<not> hook_vetoes ext hopts before hooks j"
      using exists_least_iff [of "hook_vetoes ext hopts before hooks"] by auto
    from veto [OF v least] have "fst out = nth_hook_result ext hopts before hooks k" by simp
    moreover from v have "nth_hook_result ext hopts before hooks k \<noteq> Inr ()"
      by (simp add: hook_vetoes_def)
    ultimately show "\<exists>err. fst out = Inl err"
      by (cases "nth_hook_result ext hopts before hooks k") auto
  qed
  from iff veto none show ?thesis by blast
qed



lemma demo_results:
  "nth_hook_result ext_demo (RunPre_HookRunOptions opts_wet) [] (Hooks_Pre hooks_demo) 0 =
     Inl (Errorf ''exit status 1'')"
  "nth_hook_result ext_demo (RunPre_HookRunOptions opts_wet) [] (Hooks_Pre hooks_demo) (Suc 0) =
     Inl (Errorf ''exit status 1'')"
  by (simp_all add: nth_hook_result_def RunPre_HookRunOptions_def opts_wet_def hooks_demo_def
        ext_demo_def Hook_RunOptions_def hook_warn_def hook_guard_def)

theorem Hooks_RunPre_first_veto_witness:
  "\<not> hook_vetoes ext_demo (RunPre_HookRunOptions opts_wet) [] (Hooks_Pre hooks_demo) 0 \<and>
   hook_vetoes ext_demo (RunPre_HookRunOptions opts_wet) [] (Hooks_Pre hooks_demo) 1 \<and>
   fst (Hooks_RunPre ext_demo hooks_demo opts_wet sys_empty) = Inl (Errorf ''exit status 1'') \<and>
   map RunOptions_Name (sys_runs (snd (Hooks_RunPre ext_demo hooks_demo opts_wet sys_empty))) =
     [''pre-hook warn'', ''pre-hook guard''] \<and>
   map (\<lambda>e. case e of Log l m kv \<Rightarrow> (l, m))
       (sys_log (snd (Hooks_RunPre ext_demo hooks_demo opts_wet sys_empty))) =
     [(InfoLevel, ''running hook''), (ErrorLevel, ''hook failed''), (InfoLevel, ''running hook'')]"
proof -
  let ?v = "hook_vetoes ext_demo (RunPre_HookRunOptions opts_wet) (sys_runs sys_empty)
              (Hooks_Pre hooks_demo)"
  have e: "sys_runs sys_empty = []" "sys_log sys_empty = []" by (simp_all add: sys_empty_def)
  have v0: "\<not> ?v 0"
    by (simp add: hook_vetoes_def hooks_demo_def hook_warn_def)
  have v1: "?v 1"
    using demo_results(2) by (simp add: hook_vetoes_def e hooks_demo_def hook_guard_def)
  have least: "\<forall>j<1. \<not> ?v j" using v0 by simp
  note T = Hooks_RunPre_first_veto [of ext_demo hooks_demo opts_wet sys_empty,
      THEN conjunct2, THEN conjunct1, rule_format, of 1, OF conjI [OF v1 least]]
  have res: "fst (Hooks_RunPre ext_demo hooks_demo opts_wet sys_empty) =
      Inl (Errorf ''exit status 1'')"
    using T [THEN conjunct1] demo_results(2) by (simp add: e)
  have runs: "map RunOptions_Name
       (sys_runs (snd (Hooks_RunPre ext_demo hooks_demo opts_wet sys_empty))) =
     [''pre-hook warn'', ''pre-hook guard'']"
    using T [THEN conjunct2, THEN conjunct1]
    by (simp add: e hooks_demo_def Hook_RunOptions_def RunPre_HookRunOptions_def
          hook_warn_def hook_guard_def)
  have logs: "map (\<lambda>e. case e of Log l m kv \<Rightarrow> (l, m))
       (sys_log (snd (Hooks_RunPre ext_demo hooks_demo opts_wet sys_empty))) =
     [(InfoLevel, ''running hook''), (ErrorLevel, ''hook failed''), (InfoLevel, ''running hook'')]"
    using T [THEN conjunct2, THEN conjunct2] demo_results
    by (simp add: e pre_hook_log_def running_hook_log_def hook_failed_log_def
          RunPre_HookRunOptions_def opts_wet_def hooks_demo_def hook_warn_def hook_guard_def)
  from v0 v1 res runs logs show ?thesis by (simp add: e)
qed


text \<open>
  C5. \<^verbatim>\<open>RunPost\<close> runs every post-hook, in the listed order, whether or not earlier
  ones failed: the runs it makes are those of all the hooks (none in a dry run), each
  failure leaves the line \<^verbatim>\<open>hook failed\<close> in the log, and there is no result that
  could carry an error.
\<close>

theorem Hooks_RunPost_runs_every_hook:
  "Hooks_RunPost ext h opts s =
     s\<lparr>sys_runs := sys_runs s @
         (if HooksRunOptions_DryRun opts then []
          else map (\<lambda>hook. Hook_RunOptions ext hook (RunPost_HookRunOptions opts)) (Hooks_Post h)),
       sys_log := sys_log s @
         concat (map (post_hook_log ext (RunPost_HookRunOptions opts) (sys_runs s) (Hooks_Post h))
                   [0..<length (Hooks_Post h)])\<rparr>"
proof (cases "HooksRunOptions_DryRun opts")
  case True
  then have "HookRunOptions_DryRun (RunPost_HookRunOptions opts)"
    by (simp add: RunPost_HookRunOptions_def)
  with True show ?thesis
    by (simp add: Hooks_RunPost_def RunPost_loop_dry dry_concat_post_log)
next
  case False
  then have wet: "\<not> HookRunOptions_DryRun (RunPost_HookRunOptions opts)"
    by (simp add: RunPost_HookRunOptions_def)
  with False show ?thesis
    by (simp add: Hooks_RunPost_def RunPost_loop_wet chain_runs_all)
qed

theorem Hooks_RunPost_runs_every_hook_witness:
  "map RunOptions_Name (sys_runs (Hooks_RunPost ext_demo hooks_demo opts_wet sys_empty)) =
     [''post-hook warn'', ''post-hook last''] \<and>
   map (\<lambda>e. case e of Log l m kv \<Rightarrow> (l, m))
       (sys_log (Hooks_RunPost ext_demo hooks_demo opts_wet sys_empty)) =
     [(InfoLevel, ''running hook''), (ErrorLevel, ''hook failed''), (InfoLevel, ''running hook'')]"
proof -
  have r: "nth_hook_result ext_demo (RunPost_HookRunOptions opts_wet) []
             [hook_warn, hook_last] 0 = Inl (Errorf ''exit status 1'')"
     "nth_hook_result ext_demo (RunPost_HookRunOptions opts_wet) []
             [hook_warn, hook_last] (Suc 0) = Inr ()"
    by (simp_all add: nth_hook_result_def RunPost_HookRunOptions_def opts_wet_def chain_runs_def
          ext_demo_def Hook_RunOptions_def hook_warn_def hook_last_def)
  show ?thesis
    using Hooks_RunPost_runs_every_hook [of ext_demo hooks_demo opts_wet sys_empty] r
    by (simp add: sys_empty_def hooks_demo_def opts_wet_def Hook_RunOptions_def
          RunPost_HookRunOptions_def post_hook_log_def running_hook_log_def hook_failed_log_def
          hook_warn_def hook_last_def)
qed

subsection \<open>The fan-out of the notification manager\<close>

lemma Notify_loop_calls:
  "\<exists>calls.
     net_sends (Notify_loop ctx event notifiers s) = net_sends s @ calls \<and>
     map call_service calls = map Notifier_Name (filter Notifier_IsEnabled notifiers) \<and>
     (\<forall>c \<in> set calls. call_ctx c = ctx \<and> call_event c = event) \<and>
     net_log (Notify_loop ctx event notifiers s) = net_log s @ map call_log calls \<and>
     (\<forall>i < length calls.
        call_at (calls ! i) = net_clock s + int (sum_list (map call_elapsed (take i calls)))) \<and>
     net_clock (Notify_loop ctx event notifiers s) =
       net_clock s + int (sum_list (map call_elapsed calls))"
proof (induction notifiers arbitrary: s)
  case Nil
  show ?case by simp
next
  case (Cons n rest)
  show ?case
  proof (cases "Notifier_IsEnabled n")
    case False
    with Cons.IH [of s] show ?thesis by simp
  next
    case True
    obtain r elapsed where send: "Notifier_Send n ctx event s = (r, elapsed)"
      by (cases "Notifier_Send n ctx event s")
    define c0 where "c0 = \<lparr>call_service = Notifier_Name n, call_ctx = ctx,
        call_event = event, call_at = net_clock s, call_result = r, call_elapsed = elapsed\<rparr>"
    define s1 where "s1 = s\<lparr>net_clock := net_clock s + int elapsed,
        net_sends := net_sends s @ [c0]\<rparr>"
    define s2 where "s2 = s1\<lparr>net_log := net_log s1 @ [call_log c0]\<rparr>"
    have cs: "call_Send n ctx event s = (r, s1)"
      by (simp add: call_Send_def send s1_def c0_def)
    have step: "Notify_loop ctx event (n # rest) s = Notify_loop ctx event rest s2"
      using True cs
      by (cases r) (simp_all add: s2_def call_log_def c0_def logger_Error_def logger_Debug_def)
    from Cons.IH [of s2] obtain calls where
      a: "net_sends (Notify_loop ctx event rest s2) = net_sends s2 @ calls"
      and b: "map call_service calls = map Notifier_Name (filter Notifier_IsEnabled rest)"
      and c: "\<forall>c \<in> set calls. call_ctx c = ctx \<and> call_event c = event"
      and d: "net_log (Notify_loop ctx event rest s2) = net_log s2 @ map call_log calls"
      and e: "\<forall>i < length calls.
        call_at (calls ! i) = net_clock s2 + int (sum_list (map call_elapsed (take i calls)))"
      and f: "net_clock (Notify_loop ctx event rest s2) =
        net_clock s2 + int (sum_list (map call_elapsed calls))"
      by blast
    have s2f: "net_sends s2 = net_sends s @ [c0]" "net_log s2 = net_log s @ [call_log c0]"
      "net_clock s2 = net_clock s + int elapsed"
      by (simp_all add: s2_def s1_def)
    have c0f: "call_service c0 = Notifier_Name n" "call_ctx c0 = ctx" "call_event c0 = event"
      "call_at c0 = net_clock s" "call_elapsed c0 = elapsed"
      by (simp_all add: c0_def)
    have at: "\<forall>i < length (c0 # calls).
        call_at ((c0 # calls) ! i) =
          net_clock s + int (sum_list (map call_elapsed (take i (c0 # calls))))"
    proof (intro allI impI)
      fix i assume i: "i < length (c0 # calls)"
      show "call_at ((c0 # calls) ! i) =
          net_clock s + int (sum_list (map call_elapsed (take i (c0 # calls))))"
      proof (cases i)
        case 0
        then show ?thesis by (simp add: c0f)
      next
        case (Suc j)
        with i e have "call_at (calls ! j) =
            net_clock s2 + int (sum_list (map call_elapsed (take j calls)))" by simp
        with Suc show ?thesis by (simp add: s2f c0f)
      qed
    qed
    have "net_sends (Notify_loop ctx event (n # rest) s) = net_sends s @ (c0 # calls)"
      using step a by (simp add: s2f)
    moreover have "map call_service (c0 # calls) =
        map Notifier_Name (filter Notifier_IsEnabled (n # rest))"
      using True b by (simp add: c0f)
    moreover have "\<forall>c \<in> set (c0 # calls). call_ctx c = ctx \<and> call_event c = event"
      using c by (simp add: c0f)
    moreover have "net_log (Notify_loop ctx event (n # rest) s) =
        net_log s @ map call_log (c0 # calls)"
      using step d by (simp add: s2f)
    moreover note at
    moreover have "net_clock (Notify_loop ctx event (n # rest) s) =
        net_clock s + int (sum_list (map call_elapsed (c0 # calls)))"
      using step f by (simp add: s2f c0f)
    ultimately show ?thesis by blast
  qed
qed

lemma Manager_Notify_dispatch:
  "Manager_enabled m \<Longrightarrow> isEventEnabled m (Event_Type event) \<Longrightarrow>
   Manager_Notify m event s =
     Notify_loop \<lparr>Context_Deadline = net_clock s + 10 * time_Second\<rparr>
       (set_Timestamp event (net_clock s)) (Manager_notifiers m) s"
  by (simp add: Manager_Notify_def Let_def context_WithTimeout_Background_def)

lemma new_sends_append: "net_sends s' = net_sends s @ calls \<Longrightarrow> new_sends s s' = calls"
  by (simp add: new_sends_def)

lemmas demo_defs = manager_demo_def event_demo_def net_start_def notifier_pager_def
  notifier_muted_def notifier_chat_def events_all_on_def

lemma demo_on: "Manager_enabled manager_demo" "isEventEnabled manager_demo (Event_Type event_demo)"
  by (simp_all add: demo_defs isEventEnabled_def EventBecameActive_def EventStartup_def
        EventShutdown_def EventBecomingActive_def)

lemma demo_sends:
  "net_sends (Manager_Notify manager_demo event_demo net_start) =
     [\<lparr>call_service = ''pagerduty'',
       call_ctx = \<lparr>Context_Deadline = 1010 * time_Second\<rparr>,
       call_event = event_demo\<lparr>Event_Timestamp := 1000 * time_Second\<rparr>,
       call_at = 1000 * time_Second,
       call_result = Inl (Errorf ''pagerduty API returned status 500''),
       call_elapsed = 4000000000\<rparr>,
      \<lparr>call_service = ''discord'',
       call_ctx = \<lparr>Context_Deadline = 1010 * time_Second\<rparr>,
       call_event = event_demo\<lparr>Event_Timestamp := 1000 * time_Second\<rparr>,
       call_at = 1004 * time_Second,
       call_result = Inr (),
       call_elapsed = 1000000000\<rparr>]"
  unfolding Manager_Notify_dispatch [OF demo_on]
  by (simp add: manager_demo_def notifier_pager_def notifier_muted_def notifier_chat_def
        net_start_def call_Send_def logger_Error_def logger_Debug_def set_Timestamp_def
        Time_IsZero_def event_demo_def time_Second_def)

lemma demo_new_sends:
  "new_sends net_start (Manager_Notify manager_demo event_demo net_start) =
   net_sends (Manager_Notify manager_demo event_demo net_start)"
  by (simp add: new_sends_def net_start_def)

text \<open>
  C9. When the manager is enabled and the type of the event is not filtered out,
  \<^verbatim>\<open>Notify\<close> calls \<^verbatim>\<open>Send\<close> once on every enabled notifier, in the order of the list
  and with the same (time-stamped) event, whatever the earlier calls returned; after each
  call it logs \<^verbatim>\<open>notification failed\<close> with the error, or \<^verbatim>\<open>notification sent\<close>.
  \<^verbatim>\<open>Notify\<close> has no result, so no error of a notifier can make it fail.
\<close>

theorem Manager_Notify_reaches_every_enabled_notifier:
  fixes m :: Manager and event :: Event and s :: net
  defines "calls \<equiv> new_sends s (Manager_Notify m event s)"
  assumes on: "Manager_enabled m" and ev: "isEventEnabled m (Event_Type event)"
  shows "net_sends (Manager_Notify m event s) = net_sends s @ calls \<and>
         map call_service calls =
           map Notifier_Name (filter Notifier_IsEnabled (Manager_notifiers m)) \<and>
         (\<forall>c \<in> set calls. call_event c = set_Timestamp event (net_clock s)) \<and>
         net_log (Manager_Notify m event s) = net_log s @ map call_log calls"
proof -
  let ?ctx = "\<lparr>Context_Deadline = net_clock s + 10 * time_Second\<rparr>"
  let ?ev = "set_Timestamp event (net_clock s)"
  from Notify_loop_calls [of ?ctx ?ev "Manager_notifiers m" s] obtain cs where
    a: "net_sends (Notify_loop ?ctx ?ev (Manager_notifiers m) s) = net_sends s @ cs"
    and b: "map call_service cs = map Notifier_Name (filter Notifier_IsEnabled (Manager_notifiers m))"
    and c: "\<forall>c \<in> set cs. call_ctx c = ?ctx \<and> call_event c = ?ev"
    and d: "net_log (Notify_loop ?ctx ?ev (Manager_notifiers m) s) = net_log s @ map call_log cs"
    by blast
  have eq: "Manager_Notify m event s = Notify_loop ?ctx ?ev (Manager_notifiers m) s"
    using on ev by (rule Manager_Notify_dispatch)
  have "calls = cs"
    unfolding calls_def using a eq by (simp add: new_sends_append)
  with a b c d eq show ?thesis by simp
qed

theorem Manager_Notify_reaches_every_enabled_notifier_witness:
  "Manager_enabled manager_demo \<and> isEventEnabled manager_demo (Event_Type event_demo) \<and>
   map call_service (net_sends (Manager_Notify manager_demo event_demo net_start)) =
     [''pagerduty'', ''discord''] \<and>
   map call_result (net_sends (Manager_Notify manager_demo event_demo net_start)) =
     [Inl (Errorf ''pagerduty API returned status 500''), Inr ()] \<and>
   net_log (Manager_Notify manager_demo event_demo net_start) =
     [Log ErrorLevel ''notification failed''
        [AStr ''service'', AStr ''pagerduty'', AStr ''event'', AStr ''became_active'',
         AStr ''error'', AErr (Errorf ''pagerduty API returned status 500'')],
      Log DebugLevel ''notification sent''
        [AStr ''service'', AStr ''discord'', AStr ''event'', AStr ''became_active'']]"
proof -
  note T = Manager_Notify_reaches_every_enabled_notifier [OF demo_on, of net_start,
      unfolded demo_new_sends]
  have nl: "net_log net_start = []" by (simp add: net_start_def)
  have names: "map call_service (net_sends (Manager_Notify manager_demo event_demo net_start)) =
     [''pagerduty'', ''discord'']"
    using T [THEN conjunct2, THEN conjunct1]
    by (simp add: manager_demo_def notifier_pager_def notifier_muted_def notifier_chat_def)
  have log: "net_log (Manager_Notify manager_demo event_demo net_start) =
     [Log ErrorLevel ''notification failed''
        [AStr ''service'', AStr ''pagerduty'', AStr ''event'', AStr ''became_active'',
         AStr ''error'', AErr (Errorf ''pagerduty API returned status 500'')],
      Log DebugLevel ''notification sent''
        [AStr ''service'', AStr ''discord'', AStr ''event'', AStr ''became_active'']]"
    using T [THEN conjunct2, THEN conjunct2, THEN conjunct2, unfolded demo_sends nl]
    by (simp add: call_log_def event_demo_def EventBecameActive_def)
  from demo_on names log show ?thesis by (simp add: demo_sends)
qed

text \<open>
  C8, as the code has it. \<^verbatim>\<open>Notify\<close> makes one context before the loop, with a timeout
  of ten seconds, and hands that same context to every enabled notifier. Its deadline is
  ten seconds after the clock at the start of the fan-out; for a notifier, that is ten
  seconds after its own call begins less the time the earlier calls of the fan-out took.
\<close>

theorem Manager_Notify_one_shared_deadline:
  fixes m :: Manager and event :: Event and s :: net
  defines "calls \<equiv> new_sends s (Manager_Notify m event s)"
  assumes on: "Manager_enabled m" and ev: "isEventEnabled m (Event_Type event)"
  shows "\<forall>i < length calls.
           Context_Deadline (call_ctx (calls ! i)) = net_clock s + 10 * time_Second \<and>
           Context_Deadline (call_ctx (calls ! i)) =
             call_at (calls ! i) + 10 * time_Second
               - int (sum_list (map call_elapsed (take i calls)))"
proof -
  let ?ctx = "\<lparr>Context_Deadline = net_clock s + 10 * time_Second\<rparr>"
  let ?ev = "set_Timestamp event (net_clock s)"
  from Notify_loop_calls [of ?ctx ?ev "Manager_notifiers m" s] obtain cs where
    a: "net_sends (Notify_loop ?ctx ?ev (Manager_notifiers m) s) = net_sends s @ cs"
    and c: "\<forall>c \<in> set cs. call_ctx c = ?ctx \<and> call_event c = ?ev"
    and e: "\<forall>i < length cs.
        call_at (cs ! i) = net_clock s + int (sum_list (map call_elapsed (take i cs)))"
    by blast
  have eq: "Manager_Notify m event s = Notify_loop ?ctx ?ev (Manager_notifiers m) s"
    using on ev by (rule Manager_Notify_dispatch)
  have cs: "calls = cs"
    unfolding calls_def using a eq by (simp add: new_sends_append)
  show ?thesis
  proof (intro allI impI)
    fix i assume i: "i < length calls"
    then have "cs ! i \<in> set cs" using cs by simp
    with c have "call_ctx (cs ! i) = ?ctx" by blast
    moreover from e i cs have
      "call_at (cs ! i) = net_clock s + int (sum_list (map call_elapsed (take i cs)))" by simp
    ultimately show "Context_Deadline (call_ctx (calls ! i)) = net_clock s + 10 * time_Second \<and>
           Context_Deadline (call_ctx (calls ! i)) =
             call_at (calls ! i) + 10 * time_Second
               - int (sum_list (map call_elapsed (take i calls)))"
      using cs by simp
  qed
qed

theorem Manager_Notify_one_shared_deadline_witness:
  "Manager_enabled manager_demo \<and> isEventEnabled manager_demo (Event_Type event_demo) \<and>
   Context_Deadline (call_ctx (net_sends (Manager_Notify manager_demo event_demo net_start) ! 0)) =
     1010 * time_Second \<and>
   Context_Deadline (call_ctx (net_sends (Manager_Notify manager_demo event_demo net_start) ! 1)) =
     1010 * time_Second \<and>
   call_at (net_sends (Manager_Notify manager_demo event_demo net_start) ! 1) + 10 * time_Second
     - 4 * time_Second = 1010 * time_Second"
proof -
  note T = Manager_Notify_one_shared_deadline [OF demo_on, of net_start, unfolded demo_new_sends]
  have l: "length (net_sends (Manager_Notify manager_demo event_demo net_start)) = 2"
    by (simp add: demo_sends)
  have c: "net_clock net_start = 1000 * time_Second" by (simp add: net_start_def)
  from T [rule_format, of 0] T [rule_format, of 1] l c demo_on show ?thesis
    by (simp add: demo_sends time_Second_def)
qed


text \<open>
  C8, as the claim has it, fails: the deadline is not ten seconds after each notifier's
  own call. In \<open>manager_demo\<close> the first service takes four seconds, so the call of the
  second begins at 1004 s with a context that ends at 1010 s, not at 1014 s.
\<close>

theorem Manager_Notify_second_sink_has_less_than_ten_seconds:
  "call_service (net_sends (Manager_Notify manager_demo event_demo net_start) ! 1) = ''discord'' \<and>
   call_at (net_sends (Manager_Notify manager_demo event_demo net_start) ! 1) =
     1004 * time_Second \<and>
   Context_Deadline (call_ctx (net_sends (Manager_Notify manager_demo event_demo net_start) ! 1)) =
     1010 * time_Second \<and>
   Context_Deadline (call_ctx (net_sends (Manager_Notify manager_demo event_demo net_start) ! 1)) \<noteq>
     call_at (net_sends (Manager_Notify manager_demo event_demo net_start) ! 1) + 10 * time_Second"
  by (simp add: demo_sends time_Second_def)

end
